theory Spec2Isabelle
  imports Main "HOL-Library.Word" "HOL-Library.Multiset" "HOL-Library.List_Lexorder"
begin

section \<open>The static AVM service: BuildGenesis\<close>

text \<open>
  A shallow embedding of \<^verbatim>\<open>vms/avm/static/static_service.go\<close>. The function
  \<^verbatim>\<open>BuildGenesis\<close> reads a request, builds one genesis asset per asset definition,
  sorts at every level and hands the result to the codec and to the text formatter.

  Go ranges over a map in an unspecified order. A map is therefore an association list
  whose order is the order in which the \<^verbatim>\<open>range\<close> statement happens to visit it;
  a statement about every input is a statement about every such order.
\<close>

subsection \<open>Data\<close>

type_synonym byte = "8 word"
type_synonym bytes = "byte list"

text \<open>\<^verbatim>\<open>ids.ShortID\<close> is \<^verbatim>\<open>[20]byte\<close>; \<^verbatim>\<open>ToShortID\<close> below is the only producer.\<close>

type_synonym ShortID = bytes

text \<open>
  The request types of package \<^verbatim>\<open>vmargs\<close>. Their declarations are not part of the
  source file; the fields are the ones \<^verbatim>\<open>BuildGenesis\<close> reads. An amount is an unsigned
  64-bit value and a network identifier an unsigned 32-bit value, so the conversions
  \<^verbatim>\<open>uint64(holder.Amount)\<close> and \<^verbatim>\<open>uint32(args.NetworkID)\<close> change nothing. The width of
  \<^verbatim>\<open>Denomination\<close> is left open: it is a natural number, and \<^verbatim>\<open>byte(...)\<close> is written
  out as the conversion to eight bits.
\<close>

record Holder =
  Amount :: "64 word"
  Address :: string

record Owners =
  Minters :: "string list"

text \<open>
  \<open>'st\<close> is the type of one loosely typed state (\<^verbatim>\<open>interface{}\<close>) and \<open>'enc\<close> the
  type \<^verbatim>\<open>formatting.Encoding\<close>.
\<close>

record 'st AssetDefinition =
  defName :: string
  defSymbol :: string
  defDenomination :: nat
  defInitialState :: "(string \<times> 'st list) list"
  defMemo :: string

record ('enc, 'st) BuildGenesisArgs =
  argNetworkID :: "32 word"
  argGenesisData :: "(string \<times> 'st AssetDefinition) list"
  argEncoding :: 'enc

record 'enc BuildGenesisReply =
  Bytes :: string
  Encoding :: 'enc

text \<open>The outputs of \<^verbatim>\<open>secp256k1fx\<close>, with the fields the function sets.\<close>

record OutputOwners =
  Threshold :: "32 word"
  Addrs :: "ShortID list"

datatype Output =
    TransferOutput (Amt: "64 word") (OutOwners: OutputOwners)
  | MintOutput (OutOwners: OutputOwners)

record InitialState =
  FxID :: "32 word"
  Outs :: "Output list"

text \<open>
  \<^verbatim>\<open>internalavm.GenesisAsset\<close>: an alias and a \<^verbatim>\<open>CreateAssetTx\<close>, whose embedded
  \<^verbatim>\<open>BaseTx\<close> carries the network, the chain and the memo. The embedding is flattened.
\<close>

record GenesisAsset =
  Alias :: string
  NetworkID :: "32 word"
  BlockchainID :: bytes
  Memo :: bytes
  Name :: string
  Symbol :: string
  Denomination :: byte
  States :: "InitialState list"

record Genesis =
  Txs :: "GenesisAsset list"

text \<open>\<^verbatim>\<open>ids.Empty\<close>, the zero value of the 32-byte \<^verbatim>\<open>ids.ID\<close>.\<close>

definition Empty :: bytes where
  "Empty = replicate 32 0"

subsection \<open>Errors\<close>

text \<open>
  One constructor for every \<^verbatim>\<open>return\<close> of an error in the function; the argument is
  the message of the wrapped error.
\<close>

datatype error =
    RegisterError string
  | MemoFormatError string
  | MarshalStateError string
  | UnmarshalHolderError string
  | ParseHolderAddressError string
  | UnmarshalOwnersError string
  | ParseMintersAddressError string
  | errUnknownAssetType
  | MarshalGenesisError string
  | EncodeGenesisError string

subsection \<open>Collaborators\<close>

text \<open>
  The codec, the text formatter, the address parser and the JSON package are called by
  \<^verbatim>\<open>BuildGenesis\<close> and defined elsewhere. They are parameters of the model:
  \<^item> \<open>RegisterTypes\<close>: the error collected by \<^verbatim>\<open>errs.Add\<close> from the ten
    \<^verbatim>\<open>RegisterType\<close> calls and \<^verbatim>\<open>RegisterCodec\<close>, if any;
  \<^item> \<open>Decode\<close>: \<^verbatim>\<open>formatting.Decode\<close>;
  \<^item> \<open>ParseBech32\<close>: \<^verbatim>\<open>formatting.ParseBech32\<close>, returning the prefix and the bytes;
  \<^item> \<open>JsonMarshal\<close>, \<open>UnmarshalHolder\<close>, \<open>UnmarshalOwners\<close>: \<^verbatim>\<open>json.Marshal\<close> of a
    state and \<^verbatim>\<open>json.Unmarshal\<close> into a \<^verbatim>\<open>vmargs.Holder\<close> or a \<^verbatim>\<open>vmargs.Owners\<close>;
  \<^item> \<open>MarshalOut\<close>, \<open>MarshalTx\<close>: the codec's encoding of one output and of one
    genesis asset, the keys of the two canonical sorts;
  \<^item> \<open>Marshal\<close>: \<^verbatim>\<open>manager.Marshal(codecVersion, &g)\<close>;
  \<^item> \<open>Encode\<close>: \<^verbatim>\<open>formatting.Encode\<close>, returning Go's pair of a text and an error.
\<close>

record ('enc, 'st) collaborators =
  RegisterTypes :: "string option"
  Decode :: "'enc \<Rightarrow> string \<Rightarrow> string + bytes"
  ParseBech32 :: "string \<Rightarrow> string + (string \<times> bytes)"
  JsonMarshal :: "'st \<Rightarrow> string + bytes"
  UnmarshalHolder :: "bytes \<Rightarrow> string + Holder"
  UnmarshalOwners :: "bytes \<Rightarrow> string + Owners"
  MarshalOut :: "Output \<Rightarrow> bytes"
  MarshalTx :: "GenesisAsset \<Rightarrow> bytes"
  Marshal :: "Genesis \<Rightarrow> string + bytes"
  Encode :: "'enc \<Rightarrow> bytes \<Rightarrow> string \<times> string option"

text \<open>
  Modelled from the spec: \<^verbatim>\<open>ids.ToShortID\<close> is not in the source file. Section 4.1:
  the resolver's output is a fixed-width (20-byte) binary identifier, and it fails when
  the text decodes to a length other than 20 bytes.
\<close>

definition ToShortID :: "bytes \<Rightarrow> string + ShortID" where
  "ToShortID addrbuff =
     (if length addrbuff = 20 then Inr addrbuff else Inl ''expected 20 bytes'')"

text \<open>
  Modelled from the spec: \<^verbatim>\<open>MintOutput.Sort\<close> is not in the source file. Section 4.2:
  the owner list is sorted ascending by binary value. The order on byte lists is the
  lexicographic one.
\<close>

definition SortShortIDs :: "ShortID list \<Rightarrow> ShortID list" where
  "SortShortIDs addrs = sort addrs"

text \<open>
  Modelled from the spec: \<^verbatim>\<open>InitialState.Sort\<close> is not in the source file. Section
  4.3: outputs within a group are ordered by each output's own canonical binary encoding,
  ties broken by declaration order. That is the stable sort on the encoding.
\<close>

definition SortState :: "('enc, 'st) collaborators \<Rightarrow> InitialState \<Rightarrow> InitialState" where
  "SortState c initialState =
     initialState\<lparr>Outs := sort_key (MarshalOut c) (Outs initialState)\<rparr>"

text \<open>
  Modelled from the spec: \<^verbatim>\<open>GenesisAsset.Sort\<close> is not in the source file. Section 2
  names a total order over initial-state groups; the groups are ordered by their
  \<open>FxID\<close>. \<^verbatim>\<open>BuildGenesis\<close> calls it on at most one group.
\<close>

definition SortAsset :: "GenesisAsset \<Rightarrow> GenesisAsset" where
  "SortAsset asset = asset\<lparr>States := sort_key FxID (States asset)\<rparr>"

text \<open>
  Modelled from the spec: \<^verbatim>\<open>Genesis.Sort\<close> is not in the source file. Section 4.3:
  assets within the genesis are ordered by each asset's canonical binary encoding.
\<close>

definition SortGenesis :: "('enc, 'st) collaborators \<Rightarrow> Genesis \<Rightarrow> Genesis" where
  "SortGenesis c g = g\<lparr>Txs := sort_key (MarshalTx c) (Txs g)\<rparr>"

subsection \<open>The function\<close>

text \<open>The body of the loop of the \<^verbatim>\<open>fixedCap\<close> case, for one state (lines 76 to 98).\<close>

definition fixedCapOut :: "('enc, 'st) collaborators \<Rightarrow> 'st \<Rightarrow> error + Output" where
  "fixedCapOut c state =
     (case JsonMarshal c state of
        Inl err \<Rightarrow> Inl (MarshalStateError err)
      | Inr b \<Rightarrow>
     (case UnmarshalHolder c b of
        Inl err \<Rightarrow> Inl (UnmarshalHolderError err)
      | Inr holder \<Rightarrow>
     (case ParseBech32 c (Address holder) of
        Inl err \<Rightarrow> Inl (ParseHolderAddressError err)
      | Inr (hrp, addrbuff) \<Rightarrow>
     (case ToShortID addrbuff of
        Inl err \<Rightarrow> Inl (ParseHolderAddressError err)
      | Inr addr \<Rightarrow>
          Inr (TransferOutput (Amount holder) \<lparr>Threshold = 1, Addrs = [addr]\<rparr>)))))"

text \<open>The loop over the states of the \<^verbatim>\<open>fixedCap\<close> case, appending to \<open>outs\<close>.\<close>

fun fixedCapStates ::
  "('enc, 'st) collaborators \<Rightarrow> 'st list \<Rightarrow> Output list \<Rightarrow> error + Output list" where
  "fixedCapStates c [] outs = Inr outs"
| "fixedCapStates c (state # initialStates) outs =
     (case fixedCapOut c state of
        Inl err \<Rightarrow> Inl err
      | Inr out \<Rightarrow> fixedCapStates c initialStates (outs @ [out]))"

text \<open>The loop over \<^verbatim>\<open>owners.Minters\<close> (lines 116 to 126), appending to \<open>addrs\<close>.\<close>

fun mintersAddrs ::
  "('enc, 'st) collaborators \<Rightarrow> string list \<Rightarrow> ShortID list \<Rightarrow> error + ShortID list" where
  "mintersAddrs c [] addrs = Inr addrs"
| "mintersAddrs c (address # minters) addrs =
     (case ParseBech32 c address of
        Inl err \<Rightarrow> Inl (ParseMintersAddressError err)
      | Inr (hrp, addrbuff) \<Rightarrow>
     (case ToShortID addrbuff of
        Inl err \<Rightarrow> Inl (ParseMintersAddressError err)
      | Inr addr \<Rightarrow> mintersAddrs c minters (addrs @ [addr])))"

text \<open>The body of the loop of the \<^verbatim>\<open>variableCap\<close> case, for one state (lines 102 to 129).\<close>

definition variableCapOut :: "('enc, 'st) collaborators \<Rightarrow> 'st \<Rightarrow> error + Output" where
  "variableCapOut c state =
     (case JsonMarshal c state of
        Inl err \<Rightarrow> Inl (MarshalStateError err)
      | Inr b \<Rightarrow>
     (case UnmarshalOwners c b of
        Inl err \<Rightarrow> Inl (UnmarshalOwnersError err)
      | Inr owners \<Rightarrow>
     (case mintersAddrs c (Minters owners) [] of
        Inl err \<Rightarrow> Inl err
      | Inr addrs \<Rightarrow>
          Inr (MintOutput \<lparr>Threshold = 1, Addrs = SortShortIDs addrs\<rparr>))))"

fun variableCapStates ::
  "('enc, 'st) collaborators \<Rightarrow> 'st list \<Rightarrow> Output list \<Rightarrow> error + Output list" where
  "variableCapStates c [] outs = Inr outs"
| "variableCapStates c (state # initialStates) outs =
     (case variableCapOut c state of
        Inl err \<Rightarrow> Inl err
      | Inr out \<Rightarrow> variableCapStates c initialStates (outs @ [out]))"

text \<open>
  The loop over \<^verbatim>\<open>assetDefinition.InitialState\<close> with its \<^verbatim>\<open>switch\<close> (lines 72 to
  134); \<open>outs\<close> is \<^verbatim>\<open>initialState.Outs\<close>.
\<close>

fun buildOuts ::
  "('enc, 'st) collaborators \<Rightarrow> (string \<times> 'st list) list \<Rightarrow> Output list
     \<Rightarrow> error + Output list" where
  "buildOuts c [] outs = Inr outs"
| "buildOuts c ((assetType, initialStates) # rest) outs =
     (if assetType = ''fixedCap'' then
        (case fixedCapStates c initialStates outs of
           Inl err \<Rightarrow> Inl err
         | Inr outs' \<Rightarrow> buildOuts c rest outs')
      else if assetType = ''variableCap'' then
        (case variableCapStates c initialStates outs of
           Inl err \<Rightarrow> Inl err
         | Inr outs' \<Rightarrow> buildOuts c rest outs')
      else Inl errUnknownAssetType)"

text \<open>The body of the loop over \<^verbatim>\<open>args.GenesisData\<close> (lines 50 to 138).\<close>

definition buildAsset ::
  "('enc, 'st) collaborators \<Rightarrow> ('enc, 'st) BuildGenesisArgs
     \<Rightarrow> string \<Rightarrow> 'st AssetDefinition \<Rightarrow> error + GenesisAsset" where
  "buildAsset c args assetAlias assetDefinition =
     (case Decode c (argEncoding args) (defMemo assetDefinition) of
        Inl err \<Rightarrow> Inl (MemoFormatError err)
      | Inr assetMemo \<Rightarrow>
          (let asset = \<lparr>Alias = assetAlias,
                        NetworkID = argNetworkID args,
                        BlockchainID = Empty,
                        Memo = assetMemo,
                        Name = defName assetDefinition,
                        Symbol = defSymbol assetDefinition,
                        Denomination = word_of_nat (defDenomination assetDefinition),
                        States = []\<rparr>
           in if length (defInitialState assetDefinition) > 0 then
                (case buildOuts c (defInitialState assetDefinition) [] of
                   Inl err \<Rightarrow> Inl err
                 | Inr outs \<Rightarrow>
                     Inr (SortAsset (asset\<lparr>States :=
                            States asset @ [SortState c \<lparr>FxID = 0, Outs = outs\<rparr>]\<rparr>)))
              else Inr (SortAsset asset)))"

text \<open>The loop over \<^verbatim>\<open>args.GenesisData\<close>; \<open>txs\<close> is \<^verbatim>\<open>g.Txs\<close>.\<close>

fun buildTxs ::
  "('enc, 'st) collaborators \<Rightarrow> ('enc, 'st) BuildGenesisArgs
     \<Rightarrow> (string \<times> 'st AssetDefinition) list \<Rightarrow> GenesisAsset list
     \<Rightarrow> error + GenesisAsset list" where
  "buildTxs c args [] txs = Inr txs"
| "buildTxs c args ((assetAlias, assetDefinition) # rest) txs =
     (case buildAsset c args assetAlias assetDefinition of
        Inl err \<Rightarrow> Inl err
      | Inr asset \<Rightarrow> buildTxs c args rest (txs @ [asset]))"

text \<open>
  The genesis as it stands at line 141, after \<^verbatim>\<open>g.Sort()\<close>, or the error returned
  before.
\<close>

definition buildGenesis ::
  "('enc, 'st) collaborators \<Rightarrow> ('enc, 'st) BuildGenesisArgs \<Rightarrow> error + Genesis" where
  "buildGenesis c args =
     (case RegisterTypes c of
        Some err \<Rightarrow> Inl (RegisterError err)
      | None \<Rightarrow>
     (case buildTxs c args (argGenesisData args) [] of
        Inl err \<Rightarrow> Inl err
      | Inr txs \<Rightarrow> Inr (SortGenesis c \<lparr>Txs = txs\<rparr>)))"

text \<open>
  \<^verbatim>\<open>BuildGenesis\<close>: the reply is passed in and returned as the function leaves it,
  with the error (\<open>None\<close> is \<^verbatim>\<open>nil\<close>). Line 148 assigns \<^verbatim>\<open>reply.Bytes\<close> before the
  error of \<^verbatim>\<open>formatting.Encode\<close> is looked at.
\<close>

definition BuildGenesis ::
  "('enc, 'st) collaborators \<Rightarrow> ('enc, 'st) BuildGenesisArgs \<Rightarrow> 'enc BuildGenesisReply
     \<Rightarrow> 'enc BuildGenesisReply \<times> error option" where
  "BuildGenesis c args reply =
     (case buildGenesis c args of
        Inl err \<Rightarrow> (reply, Some err)
      | Inr g \<Rightarrow>
     (case Marshal c g of
        Inl err \<Rightarrow> (reply, Some (MarshalGenesisError err))
      | Inr b \<Rightarrow>
     (case Encode c (argEncoding args) b of
        (s, Some err) \<Rightarrow> (reply\<lparr>Bytes := s\<rparr>, Some (EncodeGenesisError err))
      | (s, None) \<Rightarrow> (reply\<lparr>Bytes := s, Encoding := argEncoding args\<rparr>, None))))"

subsection \<open>The loops as traversals\<close>

text \<open>
  Each loop of the function visits a list, stops at the first error and appends the
  results otherwise. \<open>collect\<close> is that traversal for any body \<open>f\<close>; the loops above
  are shown to be instances of it, and the facts about them are proved once.
\<close>

fun collect :: "('a \<Rightarrow> 'e + 'b) \<Rightarrow> 'a list \<Rightarrow> 'b list \<Rightarrow> 'e + 'b list" where
  "collect f [] acc = Inr acc"
| "collect f (x # xs) acc =
     (case f x of Inl err \<Rightarrow> Inl err | Inr y \<Rightarrow> collect f xs (acc @ [y]))"

text \<open>The body of the loop over the minters: one address resolved.\<close>

definition minterAddr :: "('enc, 'st) collaborators \<Rightarrow> string \<Rightarrow> error + ShortID" where
  "minterAddr c address =
     (case ParseBech32 c address of
        Inl err \<Rightarrow> Inl (ParseMintersAddressError err)
      | Inr (hrp, addrbuff) \<Rightarrow>
     (case ToShortID addrbuff of
        Inl err \<Rightarrow> Inl (ParseMintersAddressError err)
      | Inr addr \<Rightarrow> Inr addr))"

text \<open>One case of the \<^verbatim>\<open>switch\<close>: the outputs of one entry of the initial state.\<close>

definition entryOuts ::
  "('enc, 'st) collaborators \<Rightarrow> string \<times> 'st list \<Rightarrow> error + Output list" where
  "entryOuts c entry =
     (if fst entry = ''fixedCap'' then fixedCapStates c (snd entry) []
      else if fst entry = ''variableCap'' then variableCapStates c (snd entry) []
      else Inl errUnknownAssetType)"

text \<open>The result of a traversal, up to the error and up to the order of the results.\<close>

definition outcome :: "'e + 'b list \<Rightarrow> unit + 'b multiset" where
  "outcome r = map_sum (\<lambda>err. ()) mset r"

subsection \<open>The logical content of a request\<close>

text \<open>
  What a request says, apart from the order in which its maps and its lists of states
  are visited: every list that the function ranges over becomes a multiset.
\<close>

definition contentStates :: "(string \<times> 'st list) list \<Rightarrow> (string \<times> 'st multiset) multiset" where
  "contentStates initialState = mset (map (\<lambda>entry. (fst entry, mset (snd entry))) initialState)"

definition contentDefinition ::
  "'st AssetDefinition
     \<Rightarrow> string \<times> string \<times> nat \<times> string \<times> (string \<times> 'st multiset) multiset" where
  "contentDefinition d =
     (defName d, defSymbol d, defDenomination d, defMemo d, contentStates (defInitialState d))"

definition contentArgs ::
  "('enc, 'st) BuildGenesisArgs
     \<Rightarrow> 32 word \<times> 'enc
         \<times> (string \<times> string \<times> string \<times> nat \<times> string
              \<times> (string \<times> 'st multiset) multiset) multiset" where
  "contentArgs args =
     (argNetworkID args, argEncoding args,
      mset (map (\<lambda>entry. (fst entry, contentDefinition (snd entry))) (argGenesisData args)))"

text \<open>
  The codec tells apart the outputs of each asset and the assets of the request: no two
  different ones have the same encoding.
\<close>

definition distinctOuts :: "('enc, 'st) collaborators \<Rightarrow> 'st AssetDefinition \<Rightarrow> bool" where
  "distinctOuts c d =
     (case buildOuts c (defInitialState d) [] of
        Inl err \<Rightarrow> True
      | Inr outs \<Rightarrow> distinct (map (MarshalOut c) (remdups outs)))"

definition distinctEncodings ::
  "('enc, 'st) collaborators \<Rightarrow> ('enc, 'st) BuildGenesisArgs \<Rightarrow> bool" where
  "distinctEncodings c args =
     (list_all (\<lambda>entry. distinctOuts c (snd entry)) (argGenesisData args) \<and>
      (case buildTxs c args (argGenesisData args) [] of
         Inl err \<Rightarrow> True
       | Inr txs \<Rightarrow> distinct (map (MarshalTx c) (remdups txs))))"

subsection \<open>A test double for the collaborators\<close>

text \<open>
  Small stand-ins for the codec, the formatter, the address parser and the JSON package,
  on which the function can be run. A state is its own JSON text: the bytes
  \<open>[0, amount, a]\<close> are a holder and \<open>1 # as\<close> are owners, where the byte \<open>a\<close>
  names an address. The addresses \<open>A\<close>, \<open>B\<close> and \<open>C\<close> parse to twenty bytes,
  \<open>short\<close> parses to nineteen, and anything else fails the checksum.
\<close>

datatype TestEncoding = TestHex | TestOther

definition testDecode :: "TestEncoding \<Rightarrow> string \<Rightarrow> string + bytes" where
  "testDecode enc s =
     (if enc = TestHex \<and> s = ''0x'' then Inr []
      else if enc = TestHex \<and> s = ''0x2a'' then Inr [42]
      else Inl ''invalid input'')"

definition testParseBech32 :: "string \<Rightarrow> string + (string \<times> bytes)" where
  "testParseBech32 s =
     (if s = ''A'' then Inr (''test'', replicate 20 1)
      else if s = ''B'' then Inr (''test'', replicate 20 2)
      else if s = ''C'' then Inr (''test'', replicate 20 3)
      else if s = ''short'' then Inr (''test'', replicate 19 1)
      else Inl ''invalid checksum'')"

definition testAddress :: "byte \<Rightarrow> string" where
  "testAddress a =
     (if a = 1 then ''A'' else if a = 2 then ''B'' else if a = 3 then ''C''
      else if a = 4 then ''short'' else ''bad'')"

definition testUnmarshalHolder :: "bytes \<Rightarrow> string + Holder" where
  "testUnmarshalHolder b =
     (case b of
        [t, amt, a] \<Rightarrow>
          if t = 0 then Inr \<lparr>Amount = ucast amt, Address = testAddress a\<rparr>
          else Inl ''not a holder''
      | _ \<Rightarrow> Inl ''not a holder'')"

definition testUnmarshalOwners :: "bytes \<Rightarrow> string + Owners" where
  "testUnmarshalOwners b =
     (case b of
        [] \<Rightarrow> Inl ''not owners''
      | t # ms \<Rightarrow>
          if t = 1 then Inr \<lparr>Minters = map testAddress ms\<rparr> else Inl ''not owners'')"

definition testMarshalOut :: "Output \<Rightarrow> bytes" where
  "testMarshalOut out =
     (case out of
        TransferOutput amt owners \<Rightarrow> 7 # ucast amt # concat (Addrs owners)
      | MintOutput owners \<Rightarrow> 6 # concat (Addrs owners))"

definition testMarshalTx :: "GenesisAsset \<Rightarrow> bytes" where
  "testMarshalTx asset =
     map of_char (Alias asset) @ Denomination asset # Memo asset
       @ concat (map (\<lambda>s. concat (map testMarshalOut (Outs s))) (States asset))"

definition testMarshal :: "Genesis \<Rightarrow> string + bytes" where
  "testMarshal g = Inr (0 # 0 # concat (map testMarshalTx (Txs g)))"

definition testEncode :: "TestEncoding \<Rightarrow> bytes \<Rightarrow> string \<times> string option" where
  "testEncode enc b =
     (if enc = TestHex then (map (\<lambda>x. char_of (unat x)) b, None)
      else ([], Some ''invalid encoding''))"

definition testCollaborators :: "(TestEncoding, bytes) collaborators" where
  "testCollaborators =
     \<lparr>RegisterTypes = None,
      Decode = testDecode,
      ParseBech32 = testParseBech32,
      JsonMarshal = Inr,
      UnmarshalHolder = testUnmarshalHolder,
      UnmarshalOwners = testUnmarshalOwners,
      MarshalOut = testMarshalOut,
      MarshalTx = testMarshalTx,
      Marshal = testMarshal,
      Encode = testEncode\<rparr>"

definition testDefinition ::
  "nat \<Rightarrow> string \<Rightarrow> (string \<times> bytes list) list \<Rightarrow> bytes AssetDefinition" where
  "testDefinition denomination memo initialState =
     \<lparr>defName = ''Name'', defSymbol = ''SYM'', defDenomination = denomination,
      defInitialState = initialState, defMemo = memo\<rparr>"

definition testRequest ::
  "TestEncoding \<Rightarrow> (string \<times> bytes AssetDefinition) list
     \<Rightarrow> (TestEncoding, bytes) BuildGenesisArgs" where
  "testRequest enc genesisData =
     \<lparr>argNetworkID = 5, argGenesisData = genesisData, argEncoding = enc\<rparr>"

definition testReply :: "TestEncoding BuildGenesisReply" where
  "testReply = \<lparr>Bytes = [], Encoding = TestOther\<rparr>"

text \<open>One request, visited in two orders.\<close>

definition testOrderOne :: "(TestEncoding, bytes) BuildGenesisArgs" where
  "testOrderOne = testRequest TestHex
     [(''a'', testDefinition 2 ''0x''
         [(''variableCap'', [[1, 2, 1]]), (''fixedCap'', [[0, 9, 2], [0, 7, 1]])]),
      (''b'', testDefinition 3 ''0x2a'' [])]"

definition testOrderTwo :: "(TestEncoding, bytes) BuildGenesisArgs" where
  "testOrderTwo = testRequest TestHex
     [(''b'', testDefinition 3 ''0x2a'' []),
      (''a'', testDefinition 2 ''0x''
         [(''fixedCap'', [[0, 7, 1], [0, 9, 2]]), (''variableCap'', [[1, 2, 1]])])]"

section \<open>Properties\<close>

subsection \<open>Traversals\<close>

lemma collect_acc:
  "collect f xs acc = (case collect f xs [] of Inl err \<Rightarrow> Inl err | Inr ys \<Rightarrow> Inr (acc @ ys))"
proof (induction xs arbitrary: acc)
  case Nil
  show ?case by simp
next
  case (Cons x xs)
  show ?case
  proof (cases "f x")
    case (Inl err)
    then show ?thesis by simp
  next
    case (Inr y)
    have "collect f xs (acc @ [y]) =
        (case collect f xs [] of Inl err \<Rightarrow> Inl err | Inr ys \<Rightarrow> Inr ((acc @ [y]) @ ys))"
      by (rule Cons.IH)
    moreover have "collect f xs [y] =
        (case collect f xs [] of Inl err \<Rightarrow> Inl err | Inr ys \<Rightarrow> Inr ([y] @ ys))"
      using Cons.IH [of "[y]"] by simp
    ultimately show ?thesis using Inr by (simp split: sum.splits)
  qed
qed

lemma collect_Inr_iff:
  "collect f xs acc = Inr ys \<longleftrightarrow>
     (\<forall>x \<in> set xs. \<exists>y. f x = Inr y) \<and> ys = acc @ map (\<lambda>x. projr (f x)) xs"
proof (induction xs arbitrary: acc)
  case Nil
  show ?case by auto
next
  case (Cons x xs)
  show ?case by (cases "f x") (auto simp: Cons.IH)
qed

lemma collect_Inl:
  "collect f xs acc = Inl err \<Longrightarrow> \<exists>x \<in> set xs. f x = Inl err"
proof (induction xs arbitrary: acc)
  case Nil
  then show ?case by simp
next
  case (Cons x xs)
  then show ?case by (cases "f x") auto
qed

lemma collect_fails:
  assumes "x \<in> set xs" and "f x = Inl e"
  shows "\<exists>err. collect f xs acc = Inl err"
proof (cases "collect f xs acc")
  case (Inl err)
  then show ?thesis by blast
next
  case (Inr ys)
  then have "\<exists>y. f x = Inr y" using assms(1) by (simp add: collect_Inr_iff)
  then show ?thesis using assms(2) by auto
qed

text \<open>The first failure decides the error.\<close>

lemma collect_first_failure:
  assumes "\<forall>x \<in> set pre. \<exists>y. f x = Inr y" and "f x = Inl e"
  shows "collect f (pre @ x # post) acc = Inl e"
  using assms(1)
proof (induction pre arbitrary: acc)
  case Nil
  show ?case using assms(2) by simp
next
  case (Cons p pre)
  then obtain y where "f p = Inr y" by auto
  then show ?case using Cons by simp
qed

lemma fixedCapStates_collect: "fixedCapStates c sts outs = collect (fixedCapOut c) sts outs"
  by (induction sts arbitrary: outs) (auto split: sum.splits)

lemma variableCapStates_collect:
  "variableCapStates c sts outs = collect (variableCapOut c) sts outs"
  by (induction sts arbitrary: outs) (auto split: sum.splits)

lemma mintersAddrs_collect: "mintersAddrs c ms addrs = collect (minterAddr c) ms addrs"
  by (induction ms arbitrary: addrs) (auto simp: minterAddr_def split: sum.splits prod.splits)

lemma buildTxs_collect:
  "buildTxs c args gd txs = collect (\<lambda>entry. buildAsset c args (fst entry) (snd entry)) gd txs"
  by (induction gd arbitrary: txs) (auto split: sum.splits)

lemma buildOuts_step:
  "buildOuts c (entry # rest) outs =
     (case entryOuts c entry of
        Inl err \<Rightarrow> Inl err
      | Inr os \<Rightarrow> buildOuts c rest (outs @ os))"
proof (cases entry)
  case (Pair assetType sts)
  have "fixedCapStates c sts outs =
      (case fixedCapStates c sts [] of Inl err \<Rightarrow> Inl err | Inr ys \<Rightarrow> Inr (outs @ ys))"
    unfolding fixedCapStates_collect by (rule collect_acc)
  moreover have "variableCapStates c sts outs =
      (case variableCapStates c sts [] of Inl err \<Rightarrow> Inl err | Inr ys \<Rightarrow> Inr (outs @ ys))"
    unfolding variableCapStates_collect by (rule collect_acc)
  ultimately show ?thesis
    using Pair by (simp add: entryOuts_def split: sum.splits)
qed

lemma buildOuts_Inr_iff:
  "buildOuts c entries outs = Inr outs' \<longleftrightarrow>
     (\<forall>entry \<in> set entries. \<exists>os. entryOuts c entry = Inr os) \<and>
     outs' = outs @ concat (map (\<lambda>entry. projr (entryOuts c entry)) entries)"
proof (induction entries arbitrary: outs)
  case Nil
  show ?case by auto
next
  case (Cons entry rest)
  show ?case
    by (cases "entryOuts c entry") (auto simp: buildOuts_step Cons.IH simp del: buildOuts.simps)
qed

lemma buildOuts_fails:
  assumes "entry \<in> set entries" and "entryOuts c entry = Inl e"
  shows "\<exists>err. buildOuts c entries outs = Inl err"
proof (cases "buildOuts c entries outs")
  case (Inl err)
  then show ?thesis by blast
next
  case (Inr outs')
  then have "\<exists>os. entryOuts c entry = Inr os" using assms(1) by (simp add: buildOuts_Inr_iff)
  then show ?thesis using assms(2) by auto
qed

lemma buildOuts_first_failure:
  assumes "\<forall>entry \<in> set pre. \<exists>os. entryOuts c entry = Inr os" and "entryOuts c entry = Inl e"
  shows "buildOuts c (pre @ entry # post) outs = Inl e"
  using assms(1)
proof (induction pre arbitrary: outs)
  case Nil
  show ?case using assms(2) by (simp add: buildOuts_step del: buildOuts.simps)
next
  case (Cons p pre)
  then obtain os where "entryOuts c p = Inr os" by auto
  then show ?case using Cons by (simp add: buildOuts_step del: buildOuts.simps)
qed

subsection \<open>One asset, and the genesis\<close>

lemma sort_key_single: "sort_key f [x] = [x]"
  by simp

lemma buildAsset_Inr_iff:
  "buildAsset c args a d = Inr asset \<longleftrightarrow>
     (\<exists>memo. Decode c (argEncoding args) (defMemo d) = Inr memo \<and>
        (if defInitialState d = [] then
           asset = \<lparr>Alias = a, NetworkID = argNetworkID args, BlockchainID = Empty,
                    Memo = memo, Name = defName d, Symbol = defSymbol d,
                    Denomination = word_of_nat (defDenomination d), States = []\<rparr>
         else
           (\<exists>outs. buildOuts c (defInitialState d) [] = Inr outs \<and>
              asset = \<lparr>Alias = a, NetworkID = argNetworkID args, BlockchainID = Empty,
                       Memo = memo, Name = defName d, Symbol = defSymbol d,
                       Denomination = word_of_nat (defDenomination d),
                       States = [\<lparr>FxID = 0, Outs = sort_key (MarshalOut c) outs\<rparr>]\<rparr>)))"
  by (auto simp: buildAsset_def SortAsset_def SortState_def Let_def split: sum.splits)

lemma buildAsset_fails_memo:
  "Decode c (argEncoding args) (defMemo d) = Inl e \<Longrightarrow>
     buildAsset c args a d = Inl (MemoFormatError e)"
  by (simp add: buildAsset_def)

lemma buildAsset_fails_entry:
  assumes "entry \<in> set (defInitialState d)" and "entryOuts c entry = Inl e"
  shows "\<exists>err. buildAsset c args a d = Inl err"
proof -
  from assms obtain err where "buildOuts c (defInitialState d) [] = Inl err"
    using buildOuts_fails by blast
  moreover have "defInitialState d \<noteq> []" using assms(1) by auto
  ultimately show ?thesis
    by (cases "Decode c (argEncoding args) (defMemo d)") (auto simp: buildAsset_def Let_def)
qed

lemma buildGenesis_Inr_iff:
  "buildGenesis c args = Inr g \<longleftrightarrow>
     RegisterTypes c = None \<and>
     (\<forall>entry \<in> set (argGenesisData args).
        \<exists>asset. buildAsset c args (fst entry) (snd entry) = Inr asset) \<and>
     g = \<lparr>Txs = sort_key (MarshalTx c)
                 (map (\<lambda>entry. projr (buildAsset c args (fst entry) (snd entry)))
                    (argGenesisData args))\<rparr>"
proof -
  let ?gd = "argGenesisData args"
  let ?build = "\<lambda>entry. buildAsset c args (fst entry) (snd entry)"
  have txs: "buildTxs c args ?gd [] = Inr txs \<longleftrightarrow>
      (\<forall>entry \<in> set ?gd. \<exists>asset. ?build entry = Inr asset) \<and>
      txs = map (\<lambda>entry. projr (?build entry)) ?gd" for txs
    by (simp add: buildTxs_collect collect_Inr_iff)
  show ?thesis
  proof (cases "RegisterTypes c")
    case (Some err)
    then show ?thesis by (simp add: buildGenesis_def)
  next
    case None
    show ?thesis
    proof (cases "buildTxs c args ?gd []")
      case (Inl err)
      then show ?thesis using None txs by (auto simp: buildGenesis_def)
    next
      case (Inr txs')
      then show ?thesis using None txs [of txs'] by (auto simp: buildGenesis_def SortGenesis_def)
    qed
  qed
qed

lemma buildGenesis_fails:
  assumes "(a, d) \<in> set (argGenesisData args)" and "buildAsset c args a d = Inl e"
  shows "\<exists>err. buildGenesis c args = Inl err"
proof (cases "buildGenesis c args")
  case (Inl err)
  then show ?thesis by blast
next
  case (Inr g)
  then have "\<exists>asset. buildAsset c args (fst (a, d)) (snd (a, d)) = Inr asset"
    using assms(1) unfolding buildGenesis_Inr_iff by blast
  then show ?thesis using assms(2) by simp
qed

lemma buildGenesis_asset:
  assumes "buildGenesis c args = Inr g" and "(a, d) \<in> set (argGenesisData args)"
  shows "\<exists>asset \<in> set (Txs g). buildAsset c args a d = Inr asset"
proof -
  from assms obtain asset where asset: "buildAsset c args a d = Inr asset"
    unfolding buildGenesis_Inr_iff by fastforce
  have "asset \<in> (\<lambda>entry. projr (buildAsset c args (fst entry) (snd entry)))
      ` set (argGenesisData args)"
    using assms(2) asset by force
  then have "asset \<in> set (Txs g)"
    using assms(1) unfolding buildGenesis_Inr_iff by simp
  then show ?thesis using asset by blast
qed

lemma BuildGenesis_fails:
  "buildGenesis c args = Inl e \<Longrightarrow> BuildGenesis c args reply = (reply, Some e)"
  by (simp add: BuildGenesis_def)

text \<open>
  An asset definition whose memo decodes and whose entries are all built is built, into
  this asset.
\<close>

lemma buildAsset_succeeds:
  assumes "Decode c (argEncoding args) (defMemo d) = Inr memo"
    and "\<forall>entry \<in> set (defInitialState d). \<exists>os. entryOuts c entry = Inr os"
  shows "buildAsset c args a d =
     Inr \<lparr>Alias = a, NetworkID = argNetworkID args, BlockchainID = Empty,
          Memo = memo, Name = defName d, Symbol = defSymbol d,
          Denomination = word_of_nat (defDenomination d),
          States = (if defInitialState d = [] then []
                    else [\<lparr>FxID = 0, Outs = sort_key (MarshalOut c)
                           (concat (map (\<lambda>entry. projr (entryOuts c entry))
                              (defInitialState d)))\<rparr>])\<rparr>"
proof (cases "defInitialState d = []")
  case True
  then show ?thesis using assms(1) by (simp add: buildAsset_Inr_iff)
next
  case False
  have "buildOuts c (defInitialState d) []
      = Inr (concat (map (\<lambda>entry. projr (entryOuts c entry)) (defInitialState d)))"
    using assms(2) by (simp add: buildOuts_Inr_iff)
  then show ?thesis using False assms(1) by (simp add: buildAsset_Inr_iff)
qed

lemma buildGenesis_succeeds:
  assumes "RegisterTypes c = None"
    and "\<forall>entry \<in> set (argGenesisData args).
          (\<exists>memo. Decode c (argEncoding args) (defMemo (snd entry)) = Inr memo) \<and>
          (\<forall>e \<in> set (defInitialState (snd entry)). \<exists>os. entryOuts c e = Inr os)"
  shows "\<exists>g. buildGenesis c args = Inr g"
proof -
  have "\<exists>asset. buildAsset c args (fst entry) (snd entry) = Inr asset"
    if "entry \<in> set (argGenesisData args)" for entry
  proof -
    from assms(2) that obtain memo
      where "Decode c (argEncoding args) (defMemo (snd entry)) = Inr memo"
        and "\<forall>e \<in> set (defInitialState (snd entry)). \<exists>os. entryOuts c e = Inr os"
      by blast
    from buildAsset_succeeds [OF this] show ?thesis by blast
  qed
  then show ?thesis using assms(1) by (simp add: buildGenesis_Inr_iff)
qed

subsection \<open>The fields of an asset\<close>

text \<open>
  Claim C9. For every asset definition of a request that is built, the denomination
  stored in its genesis asset is the supplied denomination modulo 256; whatever the
  supplied denomination is, large ones included, the asset is built all the same.
\<close>

theorem denomination_mod_256:
  assumes "buildGenesis c args = Inr g" and "(a, d) \<in> set (argGenesisData args)"
  shows "\<exists>asset \<in> set (Txs g). buildAsset c args a d = Inr asset \<and>
           unat (Denomination asset) = defDenomination d mod 256 \<and>
           (\<forall>n. \<exists>asset'. buildAsset c args a (d\<lparr>defDenomination := n\<rparr>) = Inr asset' \<and>
                   unat (Denomination asset') = n mod 256)"
proof -
  from buildGenesis_asset [OF assms] obtain asset
    where asset: "asset \<in> set (Txs g)" "buildAsset c args a d = Inr asset"
    by blast
  have trunc: "unat (word_of_nat n :: byte) = n mod 256" for n
    by (simp add: unat_of_nat)
  have "unat (Denomination asset) = defDenomination d mod 256"
    using asset(2) by (auto simp: buildAsset_Inr_iff trunc split: if_splits)
  moreover have "\<exists>asset'. buildAsset c args a (d\<lparr>defDenomination := n\<rparr>) = Inr asset' \<and>
      unat (Denomination asset') = n mod 256" for n
  proof -
    have "buildAsset c args a (d\<lparr>defDenomination := n\<rparr>) =
        map_sum id (\<lambda>x. x\<lparr>Denomination := word_of_nat n\<rparr>) (buildAsset c args a d)"
      by (simp add: buildAsset_def SortAsset_def Let_def split: sum.splits)
    then have "buildAsset c args a (d\<lparr>defDenomination := n\<rparr>) =
        Inr (asset\<lparr>Denomination := word_of_nat n\<rparr>)"
      using asset(2) by simp
    then show ?thesis by (simp add: trunc)
  qed
  ultimately show ?thesis using asset by blast
qed

lemmas test_defs = testCollaborators_def testRequest_def testDefinition_def testDecode_def
  testParseBech32_def testAddress_def testUnmarshalHolder_def testUnmarshalOwners_def
  testMarshalOut_def testMarshalTx_def testMarshal_def testEncode_def testReply_def

lemmas model_defs = buildGenesis_def BuildGenesis_def buildAsset_def fixedCapOut_def
  variableCapOut_def ToShortID_def SortShortIDs_def SortState_def SortAsset_def
  SortGenesis_def Empty_def

theorem denomination_mod_256_witness:
  "buildGenesis testCollaborators (testRequest TestHex [(''a'', testDefinition 300 ''0x'' [])])
     = Inr \<lparr>Txs = [\<lparr>Alias = ''a'', NetworkID = 5, BlockchainID = Empty, Memo = [],
                    Name = ''Name'', Symbol = ''SYM'', Denomination = 44, States = []\<rparr>]\<rparr>
   \<and> (\<exists>asset \<in> set [\<lparr>Alias = ''a'', NetworkID = 5, BlockchainID = Empty, Memo = [],
                    Name = ''Name'', Symbol = ''SYM'', Denomination = 44, States = []\<rparr>].
         unat (Denomination asset) = 300 mod 256)"
proof -
  let ?args = "testRequest TestHex [(''a'', testDefinition 300 ''0x'' [])]"
  let ?g = "\<lparr>Txs = [\<lparr>Alias = ''a'', NetworkID = 5, BlockchainID = Empty, Memo = [],
                    Name = ''Name'', Symbol = ''SYM'', Denomination = 44, States = []\<rparr>]\<rparr>"
  have built: "buildGenesis testCollaborators ?args = Inr ?g"
    by (simp add: test_defs model_defs)
  have mem: "(''a'', testDefinition 300 ''0x'' []) \<in> set (argGenesisData ?args)"
    by (simp add: testRequest_def)
  from denomination_mod_256 [OF built mem] have
    "\<exists>asset \<in> set (Txs ?g). unat (Denomination asset) =
       defDenomination (testDefinition 300 ''0x'' []) mod 256"
    by blast
  then show ?thesis using built by (simp add: testDefinition_def)
qed

text \<open>
  Claim C10. An asset definition whose memo decodes with the encoding of the request,
  and whose entries are built, is built into an asset whose memo is the decoded bytes;
  when the registration succeeds and this holds of every definition of the request, the
  genesis is built and holds that asset. If the memo of some definition does not
  decode, the function returns an error and the reply is left as it was.
\<close>

theorem memo_decoded_or_abort:
  assumes "(a, d) \<in> set (argGenesisData args)"
  shows "(\<forall>memo. Decode c (argEncoding args) (defMemo d) = Inr memo \<and>
            (\<forall>entry \<in> set (defInitialState d). \<exists>os. entryOuts c entry = Inr os) \<longrightarrow>
            (\<exists>asset. buildAsset c args a d = Inr asset \<and>
               Alias asset = a \<and> Memo asset = memo)) \<and>
         (RegisterTypes c = None \<and>
          (\<forall>entry \<in> set (argGenesisData args).
             (\<exists>memo. Decode c (argEncoding args) (defMemo (snd entry)) = Inr memo) \<and>
             (\<forall>e \<in> set (defInitialState (snd entry)). \<exists>os. entryOuts c e = Inr os)) \<longrightarrow>
            (\<exists>g asset. buildGenesis c args = Inr g \<and> asset \<in> set (Txs g) \<and>
               buildAsset c args a d = Inr asset \<and> Alias asset = a \<and>
               Decode c (argEncoding args) (defMemo d) = Inr (Memo asset))) \<and>
         (\<forall>g. buildGenesis c args = Inr g \<longrightarrow>
            (\<exists>memo. Decode c (argEncoding args) (defMemo d) = Inr memo \<and>
               (\<exists>asset \<in> set (Txs g). buildAsset c args a d = Inr asset \<and>
                   Alias asset = a \<and> Memo asset = memo))) \<and>
         (\<forall>e. Decode c (argEncoding args) (defMemo d) = Inl e \<longrightarrow>
            (\<exists>err. BuildGenesis c args reply = (reply, Some err)))"
proof -
  have built: "\<exists>memo. Decode c (argEncoding args) (defMemo d) = Inr memo \<and>
      (\<exists>asset \<in> set (Txs g). buildAsset c args a d = Inr asset \<and>
          Alias asset = a \<and> Memo asset = memo)"
    if "buildGenesis c args = Inr g" for g
  proof -
    from buildGenesis_asset [OF that assms] obtain asset
      where asset: "asset \<in> set (Txs g)" "buildAsset c args a d = Inr asset"
      by blast
    from asset(2) obtain memo
      where "Decode c (argEncoding args) (defMemo d) = Inr memo"
        and "Alias asset = a" and "Memo asset = memo"
      unfolding buildAsset_Inr_iff by (auto split: if_splits)
    then show ?thesis using asset by blast
  qed
  have one: "\<exists>asset. buildAsset c args a d = Inr asset \<and> Alias asset = a \<and> Memo asset = memo"
    if "Decode c (argEncoding args) (defMemo d) = Inr memo \<and>
        (\<forall>entry \<in> set (defInitialState d). \<exists>os. entryOuts c entry = Inr os)" for memo
    using buildAsset_succeeds [of c args d memo a] that by simp
  have whole: "\<exists>g asset. buildGenesis c args = Inr g \<and> asset \<in> set (Txs g) \<and>
      buildAsset c args a d = Inr asset \<and> Alias asset = a \<and>
      Decode c (argEncoding args) (defMemo d) = Inr (Memo asset)"
    if h: "RegisterTypes c = None \<and>
      (\<forall>entry \<in> set (argGenesisData args).
         (\<exists>memo. Decode c (argEncoding args) (defMemo (snd entry)) = Inr memo) \<and>
         (\<forall>e \<in> set (defInitialState (snd entry)). \<exists>os. entryOuts c e = Inr os))"
  proof -
    from h obtain g where g: "buildGenesis c args = Inr g"
      using buildGenesis_succeeds [of c args] by blast
    from built [OF g] g show ?thesis by blast
  qed
  have abort: "\<exists>err. BuildGenesis c args reply = (reply, Some err)"
    if "Decode c (argEncoding args) (defMemo d) = Inl e" for e
  proof -
    from that have "buildAsset c args a d = Inl (MemoFormatError e)"
      by (rule buildAsset_fails_memo)
    from buildGenesis_fails [OF assms this] obtain err where "buildGenesis c args = Inl err"
      by blast
    then have "BuildGenesis c args reply = (reply, Some err)"
      by (rule BuildGenesis_fails)
    then show ?thesis by blast
  qed
  from one whole built abort show ?thesis by blast
qed

lemma test_memo_build:
  "buildGenesis testCollaborators
     (testRequest TestHex [(''a'', testDefinition 2 ''0x2a'' [(''fixedCap'', [[0, 9, 2]])])])
   = Inr \<lparr>Txs = [\<lparr>Alias = ''a'', NetworkID = 5, BlockchainID = Empty, Memo = [42],
        Name = ''Name'', Symbol = ''SYM'', Denomination = 2,
        States = [\<lparr>FxID = 0,
            Outs = [TransferOutput 9 \<lparr>Threshold = 1, Addrs = [replicate 20 2]\<rparr>]\<rparr>]\<rparr>]\<rparr>"
  by (simp add: test_defs model_defs)

theorem memo_decoded_or_abort_witness:
  "Decode testCollaborators TestHex ''0x2a'' = Inr [42] \<and>
   buildGenesis testCollaborators
     (testRequest TestHex [(''a'', testDefinition 2 ''0x2a'' [(''fixedCap'', [[0, 9, 2]])])])
   = Inr \<lparr>Txs = [\<lparr>Alias = ''a'', NetworkID = 5, BlockchainID = Empty, Memo = [42],
        Name = ''Name'', Symbol = ''SYM'', Denomination = 2,
        States = [\<lparr>FxID = 0,
            Outs = [TransferOutput 9 \<lparr>Threshold = 1, Addrs = [replicate 20 2]\<rparr>]\<rparr>]\<rparr>]\<rparr> \<and>
   (\<exists>asset. buildAsset testCollaborators
       (testRequest TestHex [(''a'', testDefinition 2 ''0x2a'' [(''fixedCap'', [[0, 9, 2]])])])
       ''a'' (testDefinition 2 ''0x2a'' [(''fixedCap'', [[0, 9, 2]])]) = Inr asset \<and>
      Alias asset = ''a'' \<and> Memo asset = [42]) \<and>
   (\<exists>g asset. buildGenesis testCollaborators
       (testRequest TestHex [(''a'', testDefinition 2 ''0x2a'' [(''fixedCap'', [[0, 9, 2]])])])
       = Inr g \<and> asset \<in> set (Txs g) \<and> Alias asset = ''a'' \<and> Memo asset = [42]) \<and>
   Decode testCollaborators TestHex ''zz'' = Inl ''invalid input'' \<and>
   BuildGenesis testCollaborators
       (testRequest TestHex [(''a'', testDefinition 2 ''zz'' [])]) testReply
     = (testReply, Some (MemoFormatError ''invalid input''))"
proof -
  let ?d = "testDefinition 2 ''0x2a'' [(''fixedCap'', [[0, 9, 2]])]"
  let ?good = "testRequest TestHex [(''a'', ?d)]"
  let ?bad = "testRequest TestHex [(''a'', testDefinition 2 ''zz'' [])]"
  have good: "(''a'', ?d) \<in> set (argGenesisData ?good)"
    by (simp add: testRequest_def)
  have bad: "(''a'', testDefinition 2 ''zz'' []) \<in> set (argGenesisData ?bad)"
    by (simp add: testRequest_def)
  have dec: "Decode testCollaborators TestHex ''0x2a'' = Inr [42]"
    "Decode testCollaborators TestHex ''zz'' = Inl ''invalid input''"
    by (simp_all add: test_defs)
  have pre: "Decode testCollaborators (argEncoding ?good) (defMemo ?d) = Inr [42] \<and>
      (\<forall>entry \<in> set (defInitialState ?d). \<exists>os. entryOuts testCollaborators entry = Inr os)"
    by (simp add: test_defs model_defs entryOuts_def)
  note inst = memo_decoded_or_abort [OF good, of testCollaborators testReply]
  from inst [THEN conjunct1, THEN spec, THEN mp, OF pre]
  have asset: "\<exists>asset. buildAsset testCollaborators ?good ''a'' ?d = Inr asset \<and>
      Alias asset = ''a'' \<and> Memo asset = [42]" .
  have all: "RegisterTypes testCollaborators = None \<and>
      (\<forall>entry \<in> set (argGenesisData ?good).
         (\<exists>memo. Decode testCollaborators (argEncoding ?good) (defMemo (snd entry))
            = Inr memo) \<and>
         (\<forall>e \<in> set (defInitialState (snd entry)).
            \<exists>os. entryOuts testCollaborators e = Inr os))"
    by (simp add: test_defs model_defs entryOuts_def)
  from inst [THEN conjunct2, THEN conjunct1, THEN mp, OF all] dec(1)
  have whole: "\<exists>g asset. buildGenesis testCollaborators ?good = Inr g \<and>
      asset \<in> set (Txs g) \<and> Alias asset = ''a'' \<and> Memo asset = [42]"
    by (auto simp: testRequest_def testDefinition_def)
  from inst [THEN conjunct2, THEN conjunct2, THEN conjunct1, THEN spec, THEN mp,
      OF test_memo_build]
  have emb: "\<exists>memo. Decode testCollaborators (argEncoding ?good) (defMemo ?d) = Inr memo"
    by blast
  have dec': "Decode testCollaborators (argEncoding ?bad)
      (defMemo (testDefinition 2 ''zz'' [])) = Inl ''invalid input''"
    by (simp add: test_defs)
  from memo_decoded_or_abort [OF bad, of testCollaborators testReply,
      THEN conjunct2, THEN conjunct2, THEN conjunct2, THEN spec, THEN mp, OF dec']
  have "\<exists>err. BuildGenesis testCollaborators ?bad testReply = (testReply, Some err)" .
  moreover have "BuildGenesis testCollaborators ?bad testReply
      = (testReply, Some (MemoFormatError ''invalid input''))"
    by (simp add: test_defs model_defs)
  ultimately show ?thesis using dec test_memo_build asset whole emb by simp
qed

text \<open>
  Claim C8. When the function returns an error, the encoding of the reply is not set,
  and the reply is left as it was, except that a failure of the formatter puts the text
  returned with that failure in the bytes: the empty text, for a formatter that returns
  no text with an error. No genesis is delivered.
\<close>

theorem error_leaves_no_payload:
  assumes "BuildGenesis c args reply = (reply', Some err)"
    and "\<forall>enc b s e. Encode c enc b = (s, Some e) \<longrightarrow> s = []"
  shows "Encoding reply' = Encoding reply \<and>
         (reply' = reply \<or> (reply' = reply\<lparr>Bytes := []\<rparr> \<and> (\<exists>e. err = EncodeGenesisError e)))"
proof (cases "buildGenesis c args")
  case (Inl e)
  then show ?thesis using assms(1) by (simp add: BuildGenesis_def)
next
  case g: (Inr g)
  show ?thesis
  proof (cases "Marshal c g")
    case (Inl e)
    then show ?thesis using assms(1) g by (simp add: BuildGenesis_def)
  next
    case b: (Inr b)
    obtain s r where enc: "Encode c (argEncoding args) b = (s, r)"
      by (cases "Encode c (argEncoding args) b")
    show ?thesis
    proof (cases r)
      case None
      then show ?thesis using assms(1) g b enc by (simp add: BuildGenesis_def)
    next
      case (Some e)
      then have "s = []" using assms(2) enc by blast
      then show ?thesis using assms(1) g b enc Some by (auto simp: BuildGenesis_def)
    qed
  qed
qed

theorem error_leaves_no_payload_witness:
  "BuildGenesis testCollaborators (testRequest TestOther [])
       \<lparr>Bytes = ''old'', Encoding = TestHex\<rparr>
     = (\<lparr>Bytes = [], Encoding = TestHex\<rparr>, Some (EncodeGenesisError ''invalid encoding'')) \<and>
   Encoding \<lparr>Bytes = [], Encoding = TestHex\<rparr> = Encoding \<lparr>Bytes = ''old'', Encoding = TestHex\<rparr>"
proof -
  let ?reply = "\<lparr>Bytes = ''old'', Encoding = TestHex\<rparr>"
  let ?reply' = "\<lparr>Bytes = [], Encoding = TestHex\<rparr>"
  have run: "BuildGenesis testCollaborators (testRequest TestOther []) ?reply
      = (?reply', Some (EncodeGenesisError ''invalid encoding''))"
    by (simp add: test_defs model_defs)
  have fmt: "\<forall>enc b s e. Encode testCollaborators enc b = (s, Some e) \<longrightarrow> s = []"
    by (simp add: testCollaborators_def testEncode_def)
  from error_leaves_no_payload [OF run fmt] have "Encoding ?reply' = Encoding ?reply"
    by blast
  then show ?thesis using run by simp
qed

subsection \<open>The outputs of a state\<close>

lemma fixedCapOut_Inr_iff:
  "fixedCapOut c state = Inr out \<longleftrightarrow>
     (\<exists>b holder hrp addr.
        JsonMarshal c state = Inr b \<and> UnmarshalHolder c b = Inr holder \<and>
        ParseBech32 c (Address holder) = Inr (hrp, addr) \<and> length addr = 20 \<and>
        out = TransferOutput (Amount holder) \<lparr>Threshold = 1, Addrs = [addr]\<rparr>)"
  by (auto simp: fixedCapOut_def ToShortID_def split: sum.splits prod.splits if_splits)


lemma variableCapOut_Inr_iff:
  "variableCapOut c state = Inr out \<longleftrightarrow>
     (\<exists>b owners.
        JsonMarshal c state = Inr b \<and> UnmarshalOwners c b = Inr owners \<and>
        (\<forall>address \<in> set (Minters owners). \<exists>addr. minterAddr c address = Inr addr) \<and>
        out = MintOutput \<lparr>Threshold = 1,
                Addrs = sort (map (\<lambda>address. projr (minterAddr c address)) (Minters owners))\<rparr>)"
proof (cases "JsonMarshal c state")
  case (Inl e)
  then show ?thesis by (simp add: variableCapOut_def)
next
  case b: (Inr b)
  show ?thesis
  proof (cases "UnmarshalOwners c b")
    case (Inl e)
    then show ?thesis using b by (simp add: variableCapOut_def)
  next
    case owners: (Inr owners)
    show ?thesis
    proof (cases "mintersAddrs c (Minters owners) []")
      case (Inl e)
      then obtain address where "address \<in> set (Minters owners)" "minterAddr c address = Inl e"
        unfolding mintersAddrs_collect using collect_Inl by fastforce
      then have "\<not> (\<forall>address \<in> set (Minters owners). \<exists>addr. minterAddr c address = Inr addr)"
        by fastforce
      then show ?thesis using b owners Inl by (simp add: variableCapOut_def)
    next
      case (Inr addrs)
      then have "\<forall>address \<in> set (Minters owners). \<exists>addr. minterAddr c address = Inr addr"
        and "addrs = map (\<lambda>address. projr (minterAddr c address)) (Minters owners)"
        by (simp_all add: mintersAddrs_collect collect_Inr_iff)
      then show ?thesis using b owners Inr
        by (auto simp: variableCapOut_def SortShortIDs_def)
    qed
  qed
qed

lemma entryOuts_fixedCap_fails:
  assumes "state \<in> set sts" and "fixedCapOut c state = Inl e"
  shows "\<exists>err. entryOuts c (''fixedCap'', sts) = Inl err"
  using collect_fails [of state sts "fixedCapOut c" e "[]"] assms
  by (simp add: entryOuts_def fixedCapStates_collect)

lemma entryOuts_variableCap_fails:
  assumes "state \<in> set sts" and "variableCapOut c state = Inl e"
  shows "\<exists>err. entryOuts c (''variableCap'', sts) = Inl err"
  using collect_fails [of state sts "variableCapOut c" e "[]"] assms
  by (simp add: entryOuts_def variableCapStates_collect)

text \<open>A failure anywhere in the request makes the whole function fail.\<close>

lemma BuildGenesis_fails_entry:
  assumes "(a, d) \<in> set (argGenesisData args)" and "entry \<in> set (defInitialState d)"
    and "entryOuts c entry = Inl e"
  shows "\<exists>err. BuildGenesis c args reply = (reply, Some err)"
proof -
  from buildAsset_fails_entry [OF assms(2,3)] obtain e1
    where "buildAsset c args a d = Inl e1" by blast
  from buildGenesis_fails [OF assms(1) this] obtain e2
    where "buildGenesis c args = Inl e2" by blast
  then show ?thesis using BuildGenesis_fails by blast
qed


lemma test_fixedCapOut:
  "fixedCapOut testCollaborators [0, 9, 2]
     = Inr (TransferOutput 9 \<lparr>Threshold = 1, Addrs = [replicate 20 2]\<rparr>)"
  "fixedCapOut testCollaborators [0, 7, 1]
     = Inr (TransferOutput 7 \<lparr>Threshold = 1, Addrs = [replicate 20 1]\<rparr>)"
  "fixedCapOut testCollaborators [0, 7, 5] = Inl (ParseHolderAddressError ''invalid checksum'')"
  "fixedCapOut testCollaborators [0, 7, 4] = Inl (ParseHolderAddressError ''expected 20 bytes'')"
  "fixedCapOut testCollaborators [1, 2] = Inl (UnmarshalHolderError ''not a holder'')"
  by (simp_all add: test_defs model_defs)


lemma test_variableCapOut:
  "variableCapOut testCollaborators [1, 2, 1, 3]
     = Inr (MintOutput \<lparr>Threshold = 1,
              Addrs = [replicate 20 1, replicate 20 2, replicate 20 3]\<rparr>)"
  "variableCapOut testCollaborators [1] = Inr (MintOutput \<lparr>Threshold = 1, Addrs = []\<rparr>)"
  "variableCapOut testCollaborators [1, 2, 5] = Inl (ParseMintersAddressError ''invalid checksum'')"
  by code_simp+



text \<open>
  Claim C7, as the function has it. A transfer output has exactly one owner address. A
  mint output has as many owner addresses as its state lists minters: none, when the
  state lists none.
\<close>

theorem owners_per_record:
  "(\<forall>out. fixedCapOut c state = Inr out \<longrightarrow> length (Addrs (OutOwners out)) = 1) \<and>
   (\<forall>out. variableCapOut c state = Inr out \<longrightarrow>
      (\<exists>b owners. JsonMarshal c state = Inr b \<and> UnmarshalOwners c b = Inr owners \<and>
         length (Addrs (OutOwners out)) = length (Minters owners)))"
proof (intro conjI allI impI)
  fix out
  assume "fixedCapOut c state = Inr out"
  then show "length (Addrs (OutOwners out)) = 1"
    unfolding fixedCapOut_Inr_iff by auto
next
  fix out
  assume "variableCapOut c state = Inr out"
  then show "\<exists>b owners. JsonMarshal c state = Inr b \<and> UnmarshalOwners c b = Inr owners \<and>
         length (Addrs (OutOwners out)) = length (Minters owners)"
    unfolding variableCapOut_Inr_iff by auto
qed

theorem owners_per_record_witness:
  "fixedCapOut testCollaborators [0, 9, 2]
     = Inr (TransferOutput 9 \<lparr>Threshold = 1, Addrs = [replicate 20 2]\<rparr>) \<and>
   length (Addrs (OutOwners (TransferOutput 9 \<lparr>Threshold = 1, Addrs = [replicate 20 2]\<rparr>))) = 1 \<and>
   variableCapOut testCollaborators [1, 2, 1, 3]
     = Inr (MintOutput \<lparr>Threshold = 1,
              Addrs = [replicate 20 1, replicate 20 2, replicate 20 3]\<rparr>) \<and>
   (\<exists>owners. UnmarshalOwners testCollaborators [1, 2, 1, 3] = Inr owners \<and>
      length (Addrs (OutOwners (MintOutput \<lparr>Threshold = 1,
              Addrs = [replicate 20 1, replicate 20 2, replicate 20 3]\<rparr>)))
        = length (Minters owners))"
proof -
  let ?mint = "MintOutput \<lparr>Threshold = 1,
      Addrs = [replicate 20 1, replicate 20 2, replicate 20 3]\<rparr>"
  note transfer = owners_per_record [of testCollaborators "[0, 9, 2]"]
  note mint = owners_per_record [of testCollaborators "[1, 2, 1, 3]"]
  have "length (Addrs (OutOwners (TransferOutput 9
      \<lparr>Threshold = 1, Addrs = [replicate 20 2]\<rparr>))) = 1"
    using transfer test_fixedCapOut(1) by blast
  moreover have "\<exists>owners. UnmarshalOwners testCollaborators [1, 2, 1, 3] = Inr owners \<and>
      length (Addrs (OutOwners ?mint)) = length (Minters owners)"
  proof -
    from mint [THEN conjunct2, THEN spec, THEN mp, OF test_variableCapOut(1)]
    obtain b owners where b: "JsonMarshal testCollaborators [1, 2, 1, 3] = Inr b"
      and owners: "UnmarshalOwners testCollaborators b = Inr owners"
        "length (Addrs (OutOwners ?mint)) = length (Minters owners)"
      by blast
    from b have "b = [1, 2, 1, 3]" by (simp add: testCollaborators_def)
    with owners show ?thesis by blast
  qed
  ultimately show ?thesis using test_fixedCapOut(1) test_variableCapOut(1) by simp
qed

text \<open>
  A state that lists no minters is built, and its mint output has no owner address.
\<close>

theorem mint_output_without_owners:
  "buildGenesis testCollaborators
     (testRequest TestHex [(''a'', testDefinition 2 ''0x'' [(''variableCap'', [[1]])])])
   = Inr \<lparr>Txs = [\<lparr>Alias = ''a'', NetworkID = 5, BlockchainID = Empty, Memo = [],
                  Name = ''Name'', Symbol = ''SYM'', Denomination = 2,
                  States = [\<lparr>FxID = 0,
                             Outs = [MintOutput \<lparr>Threshold = 1, Addrs = []\<rparr>]\<rparr>]\<rparr>]\<rparr>"
  by (simp add: test_defs model_defs)

subsection \<open>Which error is returned\<close>

text \<open>The first failure met decides the error of the whole function.\<close>

lemma buildAsset_first_failure:
  assumes "Decode c (argEncoding args) (defMemo d) = Inr memo"
    and "defInitialState d = ipre @ entry # ipost"
    and "\<forall>entry \<in> set ipre. \<exists>os. entryOuts c entry = Inr os"
    and "entryOuts c entry = Inl e"
  shows "buildAsset c args a d = Inl e"
proof -
  have "buildOuts c (defInitialState d) [] = Inl e"
    unfolding assms(2) using assms(3,4) by (rule buildOuts_first_failure)
  then show ?thesis using assms(1,2) by (simp add: buildAsset_def Let_def)
qed

lemma buildGenesis_first_failure:
  assumes "RegisterTypes c = None"
    and "argGenesisData args = pre @ (a, d) # post"
    and "\<forall>entry \<in> set pre. \<exists>asset. buildAsset c args (fst entry) (snd entry) = Inr asset"
    and "buildAsset c args a d = Inl e"
  shows "buildGenesis c args = Inl e"
proof -
  let ?build = "\<lambda>entry. buildAsset c args (fst entry) (snd entry)"
  have "?build (a, d) = Inl e" using assms(4) by simp
  with assms(3) have "collect ?build (pre @ (a, d) # post) [] = Inl e"
    by (rule collect_first_failure)
  then show ?thesis using assms(1,2) by (simp add: buildGenesis_def buildTxs_collect)
qed

lemma entryOuts_unknown:
  "assetType \<noteq> ''fixedCap'' \<Longrightarrow> assetType \<noteq> ''variableCap'' \<Longrightarrow>
     entryOuts c (assetType, sts) = Inl errUnknownAssetType"
  by (simp add: entryOuts_def)

lemma entryOuts_fixedCap_first_failure:
  assumes "\<forall>state \<in> set spre. \<exists>out. fixedCapOut c state = Inr out"
    and "fixedCapOut c state = Inl e"
  shows "entryOuts c (''fixedCap'', spre @ state # spost) = Inl e"
  using collect_first_failure [of spre "fixedCapOut c" state e spost "[]"] assms
  by (simp add: entryOuts_def fixedCapStates_collect)

lemma fixedCapOut_bad_address:
  assumes "JsonMarshal c state = Inr b" and "UnmarshalHolder c b = Inr holder"
    and "(\<exists>e. ParseBech32 c (Address holder) = Inl e) \<or>
         (\<exists>hrp buf. ParseBech32 c (Address holder) = Inr (hrp, buf) \<and> length buf \<noteq> 20)"
  shows "\<exists>msg. fixedCapOut c state = Inl (ParseHolderAddressError msg)"
  using assms by (auto simp: fixedCapOut_def ToShortID_def)

text \<open>
  Claim C5, as the function has it. A request with an entry of an initial state whose
  tag is neither \<open>fixedCap\<close> nor \<open>variableCap\<close> makes the function return an error
  and leave the reply as it was. The error is the unknown-asset-type error when the
  registration succeeds and nothing visited before that entry fails: the assets before
  in the request, the memo of the asset, the entries before in its initial state.
\<close>

theorem unknown_asset_type_aborts:
  assumes "(a, d) \<in> set (argGenesisData args)"
    and "(assetType, sts) \<in> set (defInitialState d)"
    and "assetType \<noteq> ''fixedCap''" and "assetType \<noteq> ''variableCap''"
  shows "(\<exists>err. BuildGenesis c args reply = (reply, Some err)) \<and>
         (\<forall>pre post ipre ipost memo.
            RegisterTypes c = None \<and>
            argGenesisData args = pre @ (a, d) # post \<and>
            (\<forall>entry \<in> set pre.
               \<exists>asset. buildAsset c args (fst entry) (snd entry) = Inr asset) \<and>
            Decode c (argEncoding args) (defMemo d) = Inr memo \<and>
            defInitialState d = ipre @ (assetType, sts) # ipost \<and>
            (\<forall>entry \<in> set ipre. \<exists>os. entryOuts c entry = Inr os)
            \<longrightarrow> BuildGenesis c args reply = (reply, Some errUnknownAssetType))"
proof (intro conjI allI impI)
  have unknown: "entryOuts c (assetType, sts) = Inl errUnknownAssetType"
    using assms(3,4) by (rule entryOuts_unknown)
  from BuildGenesis_fails_entry [OF assms(1,2) unknown]
  show "\<exists>err. BuildGenesis c args reply = (reply, Some err)" .
  fix pre post ipre ipost memo
  assume h: "RegisterTypes c = None \<and>
      argGenesisData args = pre @ (a, d) # post \<and>
      (\<forall>entry \<in> set pre. \<exists>asset. buildAsset c args (fst entry) (snd entry) = Inr asset) \<and>
      Decode c (argEncoding args) (defMemo d) = Inr memo \<and>
      defInitialState d = ipre @ (assetType, sts) # ipost \<and>
      (\<forall>entry \<in> set ipre. \<exists>os. entryOuts c entry = Inr os)"
  then have "buildAsset c args a d = Inl errUnknownAssetType"
    using buildAsset_first_failure [of c args d memo ipre "(assetType, sts)" ipost] unknown
    by blast
  then have "buildGenesis c args = Inl errUnknownAssetType"
    using buildGenesis_first_failure [of c args pre a d post] h by blast
  then show "BuildGenesis c args reply = (reply, Some errUnknownAssetType)"
    by (rule BuildGenesis_fails)
qed

theorem unknown_asset_type_aborts_witness:
  "BuildGenesis testCollaborators
     (testRequest TestHex
        [(''a'', testDefinition 2 ''0x'' []),
         (''b'', testDefinition 2 ''0x2a'' [(''fixedCap'', [[0, 9, 2]]), (''unknown'', [])])])
     testReply
   = (testReply, Some errUnknownAssetType)"
proof -
  let ?da = "testDefinition 2 ''0x'' []"
  let ?d = "testDefinition 2 ''0x2a'' [(''fixedCap'', [[0, 9, 2]]), (''unknown'', [])]"
  let ?args = "testRequest TestHex [(''a'', ?da), (''b'', ?d)]"
  have mem: "(''b'', ?d) \<in> set (argGenesisData ?args)"
    "(''unknown'', []) \<in> set (defInitialState ?d)"
    by (simp_all add: testRequest_def testDefinition_def)
  have tag: "''unknown'' \<noteq> ''fixedCap''" "''unknown'' \<noteq> ''variableCap''"
    by simp_all
  have first: "RegisterTypes testCollaborators = None \<and>
      argGenesisData ?args = [(''a'', ?da)] @ (''b'', ?d) # [] \<and>
      (\<forall>entry \<in> set [(''a'', ?da)].
         \<exists>asset. buildAsset testCollaborators ?args (fst entry) (snd entry) = Inr asset) \<and>
      Decode testCollaborators (argEncoding ?args) (defMemo ?d) = Inr [42] \<and>
      defInitialState ?d = [(''fixedCap'', [[0, 9, 2]])] @ (''unknown'', []) # [] \<and>
      (\<forall>entry \<in> set [(''fixedCap'', [[0, 9, 2 :: byte]])].
         \<exists>os. entryOuts testCollaborators entry = Inr os)"
    by (simp add: test_defs model_defs entryOuts_def)
  from unknown_asset_type_aborts [OF mem tag, of testCollaborators testReply] first
  show ?thesis by blast
qed

text \<open>
  With a holder whose address fails the checksum visited first, the error returned is
  the one of the address, although the initial state has an entry of unknown tag.
\<close>

theorem unknown_asset_type_not_reported:
  "BuildGenesis testCollaborators
     (testRequest TestHex
        [(''a'', testDefinition 2 ''0x'' [(''fixedCap'', [[0, 7, 5]]), (''unknown'', [])])])
     testReply
   = (testReply, Some (ParseHolderAddressError ''invalid checksum''))"
  by (simp add: test_defs model_defs)

text \<open>
  Claim C6, as the function has it. A request with a \<open>fixedCap\<close> holder whose address
  does not parse, or does not parse to twenty bytes, makes the function return an error
  and leave the reply as it was, whatever the rest of the request. The error is the
  address error when the registration succeeds and nothing visited before that holder
  fails: the assets before in the request, the memo of the asset, the entries before in
  its initial state, the states before in the list.
\<close>

theorem bad_holder_address_aborts:
  assumes "(a, d) \<in> set (argGenesisData args)"
    and "(''fixedCap'', sts) \<in> set (defInitialState d)"
    and "state \<in> set sts"
    and "JsonMarshal c state = Inr b" and "UnmarshalHolder c b = Inr holder"
    and "(\<exists>e. ParseBech32 c (Address holder) = Inl e) \<or>
         (\<exists>hrp buf. ParseBech32 c (Address holder) = Inr (hrp, buf) \<and> length buf \<noteq> 20)"
  shows "(\<exists>err. BuildGenesis c args reply = (reply, Some err)) \<and>
         (\<forall>pre post ipre ipost spre spost memo.
            RegisterTypes c = None \<and>
            argGenesisData args = pre @ (a, d) # post \<and>
            (\<forall>entry \<in> set pre.
               \<exists>asset. buildAsset c args (fst entry) (snd entry) = Inr asset) \<and>
            Decode c (argEncoding args) (defMemo d) = Inr memo \<and>
            defInitialState d = ipre @ (''fixedCap'', sts) # ipost \<and>
            (\<forall>entry \<in> set ipre. \<exists>os. entryOuts c entry = Inr os) \<and>
            sts = spre @ state # spost \<and>
            (\<forall>state \<in> set spre. \<exists>out. fixedCapOut c state = Inr out)
            \<longrightarrow> (\<exists>msg. BuildGenesis c args reply = (reply, Some (ParseHolderAddressError msg))))"
proof (intro conjI allI impI)
  from fixedCapOut_bad_address [OF assms(4,5,6)] obtain msg
    where bad: "fixedCapOut c state = Inl (ParseHolderAddressError msg)" by blast
  from entryOuts_fixedCap_fails [OF assms(3) bad] obtain e
    where "entryOuts c (''fixedCap'', sts) = Inl e" by blast
  from BuildGenesis_fails_entry [OF assms(1,2) this]
  show "\<exists>err. BuildGenesis c args reply = (reply, Some err)" .
  fix pre post ipre ipost spre spost memo
  assume h: "RegisterTypes c = None \<and>
      argGenesisData args = pre @ (a, d) # post \<and>
      (\<forall>entry \<in> set pre. \<exists>asset. buildAsset c args (fst entry) (snd entry) = Inr asset) \<and>
      Decode c (argEncoding args) (defMemo d) = Inr memo \<and>
      defInitialState d = ipre @ (''fixedCap'', sts) # ipost \<and>
      (\<forall>entry \<in> set ipre. \<exists>os. entryOuts c entry = Inr os) \<and>
      sts = spre @ state # spost \<and>
      (\<forall>state \<in> set spre. \<exists>out. fixedCapOut c state = Inr out)"
  then have "entryOuts c (''fixedCap'', sts) = Inl (ParseHolderAddressError msg)"
    using entryOuts_fixedCap_first_failure [of spre c state _ spost] bad by blast
  then have "buildAsset c args a d = Inl (ParseHolderAddressError msg)"
    using buildAsset_first_failure [of c args d memo ipre "(''fixedCap'', sts)" ipost] h
    by blast
  then have "buildGenesis c args = Inl (ParseHolderAddressError msg)"
    using buildGenesis_first_failure [of c args pre a d post] h by blast
  then have "BuildGenesis c args reply = (reply, Some (ParseHolderAddressError msg))"
    by (rule BuildGenesis_fails)
  then show "\<exists>msg. BuildGenesis c args reply = (reply, Some (ParseHolderAddressError msg))"
    by blast
qed

theorem bad_holder_address_aborts_witness:
  "\<exists>msg. BuildGenesis testCollaborators
     (testRequest TestHex
        [(''a'', testDefinition 2 ''0x'' []),
         (''b'', testDefinition 2 ''0x2a'' [(''fixedCap'', [[0, 9, 2], [0, 7, 4]])])])
     testReply
   = (testReply, Some (ParseHolderAddressError msg))"
proof -
  let ?da = "testDefinition 2 ''0x'' []"
  let ?sts = "[[0, 9, 2], [0, 7, 4 :: byte]]"
  let ?d = "testDefinition 2 ''0x2a'' [(''fixedCap'', ?sts)]"
  let ?args = "testRequest TestHex [(''a'', ?da), (''b'', ?d)]"
  let ?holder = "\<lparr>Amount = 7, Address = ''short''\<rparr>"
  have mem: "(''b'', ?d) \<in> set (argGenesisData ?args)"
    "(''fixedCap'', ?sts) \<in> set (defInitialState ?d)"
    "[0, 7, 4] \<in> set ?sts"
    by (simp_all add: testRequest_def testDefinition_def)
  have rec: "JsonMarshal testCollaborators [0, 7, 4 :: byte] = Inr [0, 7, 4]"
    "UnmarshalHolder testCollaborators [0, 7, 4] = Inr ?holder"
    by (simp_all add: test_defs)
  have addr: "(\<exists>e. ParseBech32 testCollaborators (Address ?holder) = Inl e) \<or>
      (\<exists>hrp buf. ParseBech32 testCollaborators (Address ?holder) = Inr (hrp, buf) \<and>
         length buf \<noteq> 20)"
    by (simp add: test_defs)
  have first: "RegisterTypes testCollaborators = None \<and>
      argGenesisData ?args = [(''a'', ?da)] @ (''b'', ?d) # [] \<and>
      (\<forall>entry \<in> set [(''a'', ?da)].
         \<exists>asset. buildAsset testCollaborators ?args (fst entry) (snd entry) = Inr asset) \<and>
      Decode testCollaborators (argEncoding ?args) (defMemo ?d) = Inr [42] \<and>
      defInitialState ?d = [] @ (''fixedCap'', ?sts) # [] \<and>
      (\<forall>entry \<in> set ([] :: (string \<times> bytes list) list).
         \<exists>os. entryOuts testCollaborators entry = Inr os) \<and>
      ?sts = [[0, 9, 2]] @ [0, 7, 4] # [] \<and>
      (\<forall>state \<in> set [[0, 9, 2 :: byte]]. \<exists>out. fixedCapOut testCollaborators state = Inr out)"
    by (simp add: test_defs model_defs)
  from bad_holder_address_aborts [OF mem rec addr, of testReply] first
  show ?thesis by blast
qed

text \<open>
  With an asset whose memo does not decode visited first, the error returned is the one
  of the memo, although a holder of the next asset has an address that fails the
  checksum.
\<close>

theorem bad_holder_address_not_reported:
  "BuildGenesis testCollaborators
     (testRequest TestHex
        [(''a'', testDefinition 2 ''zz'' []),
         (''b'', testDefinition 2 ''0x'' [(''fixedCap'', [[0, 7, 5]])])])
     testReply
   = (testReply, Some (MemoFormatError ''invalid input''))"
  by (simp add: test_defs model_defs)

subsection \<open>The groups of an asset\<close>

text \<open>
  Claim C4. An asset definition with an empty initial state is built, whenever its memo
  decodes, into a genesis asset with no initial-state group, and a request of such
  definitions is built into a genesis that the function hands to the codec and to the
  formatter: their success is the success of the function. A definition with a
  non-empty initial state that is built has exactly one group, with \<open>FxID\<close> 0, and
  the outputs of the group are all the outputs of all the entries; and it is built
  whenever its memo decodes and its entries are built.
\<close>

theorem initial_state_groups:
  "(defInitialState d = [] \<longrightarrow>
      buildAsset c args a d =
        (case Decode c (argEncoding args) (defMemo d) of
           Inl e \<Rightarrow> Inl (MemoFormatError e)
         | Inr memo \<Rightarrow>
             Inr \<lparr>Alias = a, NetworkID = argNetworkID args, BlockchainID = Empty,
                  Memo = memo, Name = defName d, Symbol = defSymbol d,
                  Denomination = word_of_nat (defDenomination d), States = []\<rparr>)) \<and>
   (RegisterTypes c = None \<and>
    (\<forall>entry \<in> set (argGenesisData args).
       defInitialState (snd entry) = [] \<and>
       (\<exists>memo. Decode c (argEncoding args) (defMemo (snd entry)) = Inr memo)) \<longrightarrow>
      (\<exists>g. buildGenesis c args = Inr g \<and>
         length (Txs g) = length (argGenesisData args) \<and>
         (\<forall>tx \<in> set (Txs g). States tx = []) \<and>
         (\<forall>b s. Marshal c g = Inr b \<and> Encode c (argEncoding args) b = (s, None) \<longrightarrow>
            BuildGenesis c args reply
              = (reply\<lparr>Bytes := s, Encoding := argEncoding args\<rparr>, None)))) \<and>
   (\<forall>asset. defInitialState d \<noteq> [] \<and> buildAsset c args a d = Inr asset \<longrightarrow>
      (\<exists>outs group.
         buildOuts c (defInitialState d) [] = Inr outs \<and>
         outs = concat (map (\<lambda>entry. projr (entryOuts c entry)) (defInitialState d)) \<and>
         States asset = [group] \<and> FxID group = 0 \<and> mset (Outs group) = mset outs)) \<and>
   (\<forall>memo. defInitialState d \<noteq> [] \<and>
      Decode c (argEncoding args) (defMemo d) = Inr memo \<and>
      (\<forall>entry \<in> set (defInitialState d). \<exists>os. entryOuts c entry = Inr os) \<longrightarrow>
      (\<exists>asset group.
         buildAsset c args a d = Inr asset \<and>
         States asset = [group] \<and> FxID group = 0 \<and>
         mset (Outs group)
           = mset (concat (map (\<lambda>entry. projr (entryOuts c entry)) (defInitialState d)))))"
proof (intro conjI allI impI)
  assume "defInitialState d = []"
  then show "buildAsset c args a d =
        (case Decode c (argEncoding args) (defMemo d) of
           Inl e \<Rightarrow> Inl (MemoFormatError e)
         | Inr memo \<Rightarrow>
             Inr \<lparr>Alias = a, NetworkID = argNetworkID args, BlockchainID = Empty,
                  Memo = memo, Name = defName d, Symbol = defSymbol d,
                  Denomination = word_of_nat (defDenomination d), States = []\<rparr>)"
    by (simp add: buildAsset_def SortAsset_def split: sum.splits)
next
  let ?build = "\<lambda>entry. buildAsset c args (fst entry) (snd entry)"
  let ?g = "\<lparr>Txs = sort_key (MarshalTx c)
      (map (\<lambda>entry. projr (?build entry)) (argGenesisData args))\<rparr>"
  assume h: "RegisterTypes c = None \<and>
    (\<forall>entry \<in> set (argGenesisData args).
       defInitialState (snd entry) = [] \<and>
       (\<exists>memo. Decode c (argEncoding args) (defMemo (snd entry)) = Inr memo))"
  have each: "\<exists>asset. ?build entry = Inr asset \<and> States asset = []"
    if "entry \<in> set (argGenesisData args)" for entry
    using h that by (auto simp: buildAsset_Inr_iff)
  then have built: "buildGenesis c args = Inr ?g"
    using h unfolding buildGenesis_Inr_iff by blast
  have "States tx = []" if "tx \<in> set (Txs ?g)" for tx
  proof -
    from that obtain entry where "entry \<in> set (argGenesisData args)"
      and "tx = projr (?build entry)" by auto
    then show ?thesis using each by fastforce
  qed
  moreover have "BuildGenesis c args reply
      = (reply\<lparr>Bytes := s, Encoding := argEncoding args\<rparr>, None)"
    if "Marshal c ?g = Inr b \<and> Encode c (argEncoding args) b = (s, None)" for b s
    using that built by (simp add: BuildGenesis_def)
  moreover have "length (Txs ?g) = length (argGenesisData args)" by simp
  ultimately show "\<exists>g. buildGenesis c args = Inr g \<and>
         length (Txs g) = length (argGenesisData args) \<and>
         (\<forall>tx \<in> set (Txs g). States tx = []) \<and>
         (\<forall>b s. Marshal c g = Inr b \<and> Encode c (argEncoding args) b = (s, None) \<longrightarrow>
            BuildGenesis c args reply
              = (reply\<lparr>Bytes := s, Encoding := argEncoding args\<rparr>, None))"
    using built by blast
next
  fix asset
  assume h: "defInitialState d \<noteq> [] \<and> buildAsset c args a d = Inr asset"
  then obtain outs where outs: "buildOuts c (defInitialState d) [] = Inr outs"
    and st: "States asset = [\<lparr>FxID = 0, Outs = sort_key (MarshalOut c) outs\<rparr>]"
    unfolding buildAsset_Inr_iff by auto
  from outs have "outs = concat (map (\<lambda>entry. projr (entryOuts c entry)) (defInitialState d))"
    by (simp add: buildOuts_Inr_iff)
  then show "\<exists>outs group.
         buildOuts c (defInitialState d) [] = Inr outs \<and>
         outs = concat (map (\<lambda>entry. projr (entryOuts c entry)) (defInitialState d)) \<and>
         States asset = [group] \<and> FxID group = 0 \<and> mset (Outs group) = mset outs"
    using outs st by simp
next
  fix memo
  assume h: "defInitialState d \<noteq> [] \<and>
      Decode c (argEncoding args) (defMemo d) = Inr memo \<and>
      (\<forall>entry \<in> set (defInitialState d). \<exists>os. entryOuts c entry = Inr os)"
  let ?outs = "concat (map (\<lambda>entry. projr (entryOuts c entry)) (defInitialState d))"
  let ?group = "\<lparr>FxID = 0, Outs = sort_key (MarshalOut c) ?outs\<rparr>"
  from h have "buildAsset c args a d =
      Inr \<lparr>Alias = a, NetworkID = argNetworkID args, BlockchainID = Empty,
           Memo = memo, Name = defName d, Symbol = defSymbol d,
           Denomination = word_of_nat (defDenomination d), States = [?group]\<rparr>"
    using buildAsset_succeeds [of c args d memo a] by simp
  moreover have "FxID ?group = 0" "mset (Outs ?group) = mset ?outs" by simp_all
  ultimately show "\<exists>asset group.
         buildAsset c args a d = Inr asset \<and>
         States asset = [group] \<and> FxID group = 0 \<and>
         mset (Outs group)
           = mset (concat (map (\<lambda>entry. projr (entryOuts c entry)) (defInitialState d)))"
    by (metis GenesisAsset.select_convs(8))
qed

lemma test_buildAsset:
  "buildAsset testCollaborators (testRequest TestHex [(''a'', testDefinition 2 ''0x'' [])]) ''b''
     (testDefinition 2 ''0x'' [(''variableCap'', [[1, 2, 1]]), (''fixedCap'', [[0, 9, 2]])])
   = Inr \<lparr>Alias = ''b'', NetworkID = 5, BlockchainID = Empty, Memo = [],
          Name = ''Name'', Symbol = ''SYM'', Denomination = 2,
          States = [\<lparr>FxID = 0,
              Outs = [MintOutput \<lparr>Threshold = 1, Addrs = [replicate 20 1, replicate 20 2]\<rparr>,
                      TransferOutput 9 \<lparr>Threshold = 1, Addrs = [replicate 20 2]\<rparr>]\<rparr>]\<rparr>"
  by code_simp

theorem initial_state_groups_witness:
  "buildAsset testCollaborators (testRequest TestHex [(''a'', testDefinition 2 ''0x'' [])]) ''a''
     (testDefinition 2 ''0x'' [])
   = Inr \<lparr>Alias = ''a'', NetworkID = 5, BlockchainID = Empty, Memo = [],
          Name = ''Name'', Symbol = ''SYM'', Denomination = 2, States = []\<rparr> \<and>
   BuildGenesis testCollaborators (testRequest TestHex [(''a'', testDefinition 2 ''0x'' [])])
     testReply
   = (\<lparr>Bytes = [CHR 0x00, CHR 0x00, CHR ''a'', CHR 0x02], Encoding = TestHex\<rparr>, None) \<and>
   buildAsset testCollaborators (testRequest TestHex [(''a'', testDefinition 2 ''0x'' [])]) ''b''
     (testDefinition 2 ''0x'' [(''variableCap'', [[1, 2, 1]]), (''fixedCap'', [[0, 9, 2]])])
   = Inr \<lparr>Alias = ''b'', NetworkID = 5, BlockchainID = Empty, Memo = [],
          Name = ''Name'', Symbol = ''SYM'', Denomination = 2,
          States = [\<lparr>FxID = 0,
              Outs = [MintOutput \<lparr>Threshold = 1, Addrs = [replicate 20 1, replicate 20 2]\<rparr>,
                      TransferOutput 9 \<lparr>Threshold = 1, Addrs = [replicate 20 2]\<rparr>]\<rparr>]\<rparr> \<and>
   (\<exists>asset group.
      buildAsset testCollaborators (testRequest TestHex [(''a'', testDefinition 2 ''0x'' [])])
        ''b'' (testDefinition 2 ''0x''
                [(''variableCap'', [[1, 2, 1]]), (''fixedCap'', [[0, 9, 2]])])
      = Inr asset \<and>
      States asset = [group] \<and> FxID group = 0 \<and>
      mset (Outs group)
        = mset [MintOutput \<lparr>Threshold = 1, Addrs = [replicate 20 1, replicate 20 2]\<rparr>,
                TransferOutput 9 \<lparr>Threshold = 1, Addrs = [replicate 20 2]\<rparr>])"
proof -
  let ?none = "testDefinition 2 ''0x'' []"
  let ?args = "testRequest TestHex [(''a'', ?none)]"
  let ?d = "testDefinition 2 ''0x''
      [(''variableCap'', [[1, 2, 1]]), (''fixedCap'', [[0, 9, 2]])]"
  let ?bare = "\<lparr>Alias = ''a'', NetworkID = 5, BlockchainID = Empty, Memo = [],
      Name = ''Name'', Symbol = ''SYM'', Denomination = 2, States = []\<rparr>"
  let ?group = "\<lparr>FxID = 0,
      Outs = [MintOutput \<lparr>Threshold = 1, Addrs = [replicate 20 1, replicate 20 2]\<rparr>,
              TransferOutput 9 \<lparr>Threshold = 1, Addrs = [replicate 20 2]\<rparr>]\<rparr>"
  let ?asset = "\<lparr>Alias = ''b'', NetworkID = 5, BlockchainID = Empty, Memo = [],
      Name = ''Name'', Symbol = ''SYM'', Denomination = 2, States = [?group]\<rparr>"
  note bare = initial_state_groups [of ?none testCollaborators ?args "''a''" testReply]
  note inst = initial_state_groups [of ?d testCollaborators ?args "''b''" testReply]
  have empty: "defInitialState ?none = []" by (simp add: testDefinition_def)
  have "buildAsset testCollaborators ?args ''a'' ?none = Inr ?bare"
    using bare empty by (simp add: test_defs)
  moreover have "BuildGenesis testCollaborators ?args testReply
      = (\<lparr>Bytes = [CHR 0x00, CHR 0x00, CHR ''a'', CHR 0x02], Encoding = TestHex\<rparr>, None)"
  proof -
    have pre: "RegisterTypes testCollaborators = None \<and>
        (\<forall>entry \<in> set (argGenesisData ?args).
           defInitialState (snd entry) = [] \<and>
           (\<exists>memo. Decode testCollaborators (argEncoding ?args) (defMemo (snd entry))
              = Inr memo))"
      by (simp add: test_defs)
    have g: "buildGenesis testCollaborators ?args = Inr \<lparr>Txs = [?bare]\<rparr>"
      by (simp add: test_defs model_defs)
    have enc: "Marshal testCollaborators \<lparr>Txs = [?bare]\<rparr> = Inr [0, 0, 97, 2] \<and>
        Encode testCollaborators (argEncoding ?args) [0, 0, 97, 2]
          = ([CHR 0x00, CHR 0x00, CHR ''a'', CHR 0x02], None)"
      by code_simp
    from bare [THEN conjunct2, THEN conjunct1, THEN mp, OF pre] obtain g'
      where g': "buildGenesis testCollaborators ?args = Inr g'"
        and run: "\<forall>b s. Marshal testCollaborators g' = Inr b \<and>
            Encode testCollaborators (argEncoding ?args) b = (s, None) \<longrightarrow>
            BuildGenesis testCollaborators ?args testReply
              = (testReply\<lparr>Bytes := s, Encoding := argEncoding ?args\<rparr>, None)"
      by blast
    from g' g have "g' = \<lparr>Txs = [?bare]\<rparr>" by simp
    with run enc have "BuildGenesis testCollaborators ?args testReply
        = (testReply\<lparr>Bytes := [CHR 0x00, CHR 0x00, CHR ''a'', CHR 0x02],
             Encoding := argEncoding ?args\<rparr>, None)"
      by blast
    then show ?thesis by (simp add: testReply_def testRequest_def)
  qed
  moreover have "\<exists>asset group.
      buildAsset testCollaborators ?args ''b'' ?d = Inr asset \<and>
      States asset = [group] \<and> FxID group = 0 \<and> mset (Outs group) = mset (Outs ?group)"
  proof -
    have entries: "entryOuts testCollaborators (''variableCap'', [[1, 2, 1]])
        = Inr [MintOutput \<lparr>Threshold = 1, Addrs = [replicate 20 1, replicate 20 2]\<rparr>]"
      "entryOuts testCollaborators (''fixedCap'', [[0, 9, 2]])
        = Inr [TransferOutput 9 \<lparr>Threshold = 1, Addrs = [replicate 20 2]\<rparr>]"
      by code_simp+
    have memo: "Decode testCollaborators TestHex ''0x'' = Inr []"
      by (simp add: test_defs)
    have pre: "defInitialState ?d \<noteq> [] \<and>
        Decode testCollaborators (argEncoding ?args) (defMemo ?d) = Inr [] \<and>
        (\<forall>entry \<in> set (defInitialState ?d). \<exists>os. entryOuts testCollaborators entry = Inr os)"
      using entries memo by (simp add: testDefinition_def testRequest_def)
    from inst [THEN conjunct2, THEN conjunct2, THEN conjunct2, THEN spec, THEN mp, OF pre]
    show ?thesis using entries by (simp add: testDefinition_def)
  qed
  moreover have "buildAsset testCollaborators ?args ''b'' ?d = Inr ?asset
      \<and> (\<exists>group. States ?asset = [group] \<and> FxID group = 0)"
  proof -
    have built: "defInitialState ?d \<noteq> [] \<and>
        buildAsset testCollaborators ?args ''b'' ?d = Inr ?asset"
      by (simp add: test_buildAsset) (simp add: testDefinition_def)
    from inst [THEN conjunct2, THEN conjunct2, THEN conjunct1, THEN spec, THEN mp, OF this]
    obtain outs group where
      "buildOuts testCollaborators (defInitialState ?d) [] = Inr outs"
      "States ?asset = [group]" "FxID group = 0" "mset (Outs group) = mset outs"
      by blast
    then show ?thesis using built by blast
  qed
  ultimately show ?thesis by simp
qed

subsection \<open>Order of visit\<close>

text \<open>
  Two lists with the same multiset of \<open>f\<close>-values have the same multiset of
  \<open>h\<close>-values, when \<open>f\<close> decides \<open>h\<close> on their elements.
\<close>

lemma mset_map_determined:
  assumes "mset (map f xs) = mset (map f ys)"
    and "\<And>x y. x \<in> set xs \<Longrightarrow> y \<in> set ys \<Longrightarrow> f x = f y \<Longrightarrow> h x = h y"
  shows "mset (map h xs) = mset (map h ys)"
  using assms
proof (induction xs arbitrary: ys)
  case Nil
  then show ?case by simp
next
  case (Cons x xs)
  have "f x \<in> set (map f ys)"
    using Cons.prems(1) by (metis list.set_intros(1) list.simps(9) set_mset_mset)
  then obtain y where y: "y \<in> set ys" "f y = f x" by auto
  then obtain ys1 ys2 where ys: "ys = ys1 @ y # ys2" by (meson split_list)
  have "mset (map f xs) = mset (map f (ys1 @ ys2))"
    using Cons.prems(1) ys y(2) by simp
  moreover have "h x' = h y'"
    if "x' \<in> set xs" "y' \<in> set (ys1 @ ys2)" "f x' = f y'" for x' y'
    using that Cons.prems(2) [of x' y'] ys by auto
  ultimately have "mset (map h xs) = mset (map h (ys1 @ ys2))"
    by (rule Cons.IH)
  moreover have "h x = h y"
    using Cons.prems(2) [of x y] y by simp
  ultimately show ?case using ys by simp
qed

lemma outcome_simps [simp]:
  "outcome (Inl e) = Inl ()" "outcome (Inr ys) = Inr (mset ys)"
  by (simp_all add: outcome_def)

lemma outcome_collect:
  assumes "mset xs = mset ys"
  shows "outcome (collect f xs []) = outcome (collect f ys [])"
proof -
  have sets: "set xs = set ys" using assms by (rule mset_eq_setD)
  have maps: "mset (map (\<lambda>x. projr (f x)) xs) = mset (map (\<lambda>x. projr (f x)) ys)"
    using assms by simp
  show ?thesis
  proof (cases "collect f xs []")
    case (Inl e)
    then obtain x where "x \<in> set xs" "f x = Inl e" using collect_Inl by fastforce
    then obtain e' where "collect f ys [] = Inl e'"
      using collect_fails [of x ys f e "[]"] sets by auto
    then show ?thesis using Inl by simp
  next
    case (Inr rs)
    then have ok: "\<forall>x \<in> set xs. \<exists>y. f x = Inr y" and rs: "rs = map (\<lambda>x. projr (f x)) xs"
      by (simp_all add: collect_Inr_iff)
    have "collect f ys [] = Inr (map (\<lambda>x. projr (f x)) ys)"
      using ok sets by (simp add: collect_Inr_iff)
    then show ?thesis using Inr rs maps by simp
  qed
qed

lemma outcome_entryOuts:
  assumes "fst entry = fst entry'" and "mset (snd entry) = mset (snd entry')"
  shows "outcome (entryOuts c entry) = outcome (entryOuts c entry')"
  using assms outcome_collect [of "snd entry" "snd entry'" "fixedCapOut c"]
    outcome_collect [of "snd entry" "snd entry'" "variableCapOut c"]
  by (simp add: entryOuts_def fixedCapStates_collect variableCapStates_collect)

lemma outcome_buildOuts_eq:
  "outcome (buildOuts c entries []) =
     (if \<forall>entry \<in> set entries. \<exists>ms. outcome (entryOuts c entry) = Inr ms
      then Inr (sum_list (map (\<lambda>entry. projr (outcome (entryOuts c entry))) entries))
      else Inl ())"
proof (cases "buildOuts c entries []")
  case (Inl e)
  then have "\<not> (\<forall>entry \<in> set entries. \<exists>os. entryOuts c entry = Inr os)"
    using buildOuts_Inr_iff [of c entries "[]"] by auto
  then obtain entry where "entry \<in> set entries" "\<forall>os. entryOuts c entry \<noteq> Inr os" by blast
  then have "entry \<in> set entries" "\<forall>ms. outcome (entryOuts c entry) \<noteq> Inr ms"
    by (cases "entryOuts c entry"; simp)+
  then show ?thesis using Inl by auto
next
  case (Inr outs)
  then have ok: "\<forall>entry \<in> set entries. \<exists>os. entryOuts c entry = Inr os"
    and outs: "outs = concat (map (\<lambda>entry. projr (entryOuts c entry)) entries)"
    by (simp_all add: buildOuts_Inr_iff)
  have "mset (concat (map (\<lambda>entry. projr (entryOuts c entry)) es))
      = sum_list (map (\<lambda>entry. projr (outcome (entryOuts c entry))) es)"
    if "\<forall>entry \<in> set es. \<exists>os. entryOuts c entry = Inr os" for es
    using that by (induction es) auto
  moreover have "\<forall>entry \<in> set entries. \<exists>ms. outcome (entryOuts c entry) = Inr ms"
    using ok by fastforce
  ultimately show ?thesis using Inr ok outs by simp
qed

lemma outcome_buildOuts:
  assumes "contentStates entries = contentStates entries'"
  shows "outcome (buildOuts c entries []) = outcome (buildOuts c entries' [])"
proof -
  let ?h = "\<lambda>entry. outcome (entryOuts c entry)"
  have "mset (map ?h entries) = mset (map ?h entries')"
  proof (rule mset_map_determined)
    show "mset (map (\<lambda>entry. (fst entry, mset (snd entry))) entries)
        = mset (map (\<lambda>entry. (fst entry, mset (snd entry))) entries')"
      using assms by (simp add: contentStates_def)
    show "?h x = ?h y" if "(fst x, mset (snd x)) = (fst y, mset (snd y))" for x y
      using that by (intro outcome_entryOuts) simp_all
  qed
  then have m: "image_mset ?h (mset entries) = image_mset ?h (mset entries')"
    by simp
  then have "set_mset (image_mset ?h (mset entries)) = set_mset (image_mset ?h (mset entries'))"
    by simp
  then have s: "?h ` set entries = ?h ` set entries'" by simp
  have "(\<forall>entry \<in> set entries. \<exists>ms. ?h entry = Inr ms) \<longleftrightarrow>
      (\<forall>v \<in> ?h ` set entries. \<exists>ms. v = Inr ms)" by blast
  also have "\<dots> \<longleftrightarrow> (\<forall>v \<in> ?h ` set entries'. \<exists>ms. v = Inr ms)" using s by simp
  also have "\<dots> \<longleftrightarrow> (\<forall>entry \<in> set entries'. \<exists>ms. ?h entry = Inr ms)" by blast
  finally have ok: "(\<forall>entry \<in> set entries. \<exists>ms. ?h entry = Inr ms) \<longleftrightarrow>
      (\<forall>entry \<in> set entries'. \<exists>ms. ?h entry = Inr ms)" .
  have "sum_list (map (\<lambda>entry. projr (?h entry)) es)
      = sum_mset (image_mset projr (image_mset ?h (mset es)))" for es
    by (induction es) simp_all
  then have "sum_list (map (\<lambda>entry. projr (?h entry)) entries)
      = sum_list (map (\<lambda>entry. projr (?h entry)) entries')"
    using m by simp
  then show ?thesis using ok by (simp add: outcome_buildOuts_eq)
qed

lemma distinct_remdups_inj_on: "distinct (map f (remdups xs)) \<longleftrightarrow> inj_on f (set xs)"
  by (simp add: distinct_map)

lemma contentStates_Nil_iff:
  "contentStates entries = contentStates entries' \<Longrightarrow> entries = [] \<longleftrightarrow> entries' = []"
  by (auto simp: contentStates_def)

lemma buildAsset_args:
  "argEncoding args = argEncoding args' \<Longrightarrow> argNetworkID args = argNetworkID args' \<Longrightarrow>
     buildAsset c args a d = buildAsset c args' a d"
  by (simp add: buildAsset_def Let_def split: sum.splits)

text \<open>
  An asset definition built into an asset is built into the same asset from any
  definition with the same content, when the codec tells its outputs apart.
\<close>

lemma buildAsset_content:
  assumes "contentDefinition d = contentDefinition d'"
    and "distinctOuts c d"
    and "buildAsset c args a d = Inr asset"
  shows "buildAsset c args a d' = Inr asset"
proof -
  from assms(1) have fields: "defName d' = defName d" "defSymbol d' = defSymbol d"
    "defDenomination d' = defDenomination d" "defMemo d' = defMemo d"
    and states: "contentStates (defInitialState d) = contentStates (defInitialState d')"
    by (simp_all add: contentDefinition_def)
  from states have nil: "defInitialState d = [] \<longleftrightarrow> defInitialState d' = []"
    by (rule contentStates_Nil_iff)
  from assms(3) obtain memo where memo: "Decode c (argEncoding args) (defMemo d) = Inr memo"
    unfolding buildAsset_Inr_iff by blast
  show ?thesis
  proof (cases "defInitialState d = []")
    case True
    then show ?thesis using assms(3) nil fields unfolding buildAsset_Inr_iff by auto
  next
    case False
    with assms(3) memo obtain outs where outs: "buildOuts c (defInitialState d) [] = Inr outs"
      and asset: "asset = \<lparr>Alias = a, NetworkID = argNetworkID args, BlockchainID = Empty,
          Memo = memo, Name = defName d, Symbol = defSymbol d,
          Denomination = word_of_nat (defDenomination d),
          States = [\<lparr>FxID = 0, Outs = sort_key (MarshalOut c) outs\<rparr>]\<rparr>"
      unfolding buildAsset_Inr_iff by auto
    have "outcome (buildOuts c (defInitialState d') []) = Inr (mset outs)"
      using outcome_buildOuts [OF states, of c] outs by simp
    then obtain outs' where outs': "buildOuts c (defInitialState d') [] = Inr outs'"
      and same: "mset outs' = mset outs"
      by (cases "buildOuts c (defInitialState d') []") auto
    have "inj_on (MarshalOut c) (set outs)"
      using assms(2) outs by (simp add: distinctOuts_def distinct_remdups_inj_on)
    with same have "sort_key (MarshalOut c) outs' = sort_key (MarshalOut c) outs"
      by (metis sort_key_eq_sort_key)
    then show ?thesis
      using False nil fields memo outs' asset unfolding buildAsset_Inr_iff by auto
  qed
qed

lemma buildGenesis_content:
  assumes "contentArgs args = contentArgs args'"
    and "distinctEncodings c args"
    and "buildGenesis c args = Inr g"
  shows "buildGenesis c args' = Inr g"
proof -
  let ?gd = "argGenesisData args" and ?gd' = "argGenesisData args'"
  define norm :: "string \<times> 'b AssetDefinition \<Rightarrow> _"
    where "norm = (\<lambda>entry. (fst entry, contentDefinition (snd entry)))"
  define build where "build = (\<lambda>entry. buildAsset c args (fst entry) (snd entry))"
  define build' where "build' = (\<lambda>entry. buildAsset c args' (fst entry) (snd entry))"
  from assms(1) have enc: "argEncoding args = argEncoding args'"
    and net: "argNetworkID args = argNetworkID args'"
    and content: "mset (map norm ?gd) = mset (map norm ?gd')"
    by (simp_all add: contentArgs_def norm_def)
  have same_build: "build' = build"
    using buildAsset_args [OF enc net] by (simp add: build_def build'_def)
  from assms(3) have reg: "RegisterTypes c = None"
    and ok: "\<forall>entry \<in> set ?gd. \<exists>asset. build entry = Inr asset"
    and g: "g = \<lparr>Txs = sort_key (MarshalTx c) (map (\<lambda>entry. projr (build entry)) ?gd)\<rparr>"
    unfolding buildGenesis_Inr_iff build_def by blast+
  have douts: "distinctOuts c (snd entry)" if "entry \<in> set ?gd" for entry
    using assms(2) that by (simp add: distinctEncodings_def list_all_iff)
  have determined: "build x = build y"
    if x: "x \<in> set ?gd" and n: "norm x = norm y" for x y
  proof -
    from ok x obtain asset where asset: "build x = Inr asset" by blast
    from n have "fst y = fst x" "contentDefinition (snd x) = contentDefinition (snd y)"
      by (simp_all add: norm_def)
    with buildAsset_content [OF _ douts [OF x], of "snd y" args "fst x" asset] asset
    show ?thesis by (simp add: build_def)
  qed
  have "set (map norm ?gd) = set (map norm ?gd')"
    using content by (rule mset_eq_setD)
  then have norm_sets: "norm ` set ?gd' = norm ` set ?gd" by simp
  have ok': "\<exists>asset. build entry' = Inr asset" if "entry' \<in> set ?gd'" for entry'
  proof -
    from that have "norm entry' \<in> norm ` set ?gd'" by (rule imageI)
    then have "norm entry' \<in> norm ` set ?gd" using norm_sets by simp
    then obtain entry where entry: "entry \<in> set ?gd" "norm entry' = norm entry" by (rule imageE)
    from determined [OF entry(1), of entry'] entry(2) have eq: "build entry' = build entry"
      by simp
    from ok entry(1) obtain asset where "build entry = Inr asset" by blast
    with eq have "build entry' = Inr asset" by simp
    then show ?thesis by blast
  qed
  have "mset (map build ?gd) = mset (map build ?gd')"
    using content
  proof (rule mset_map_determined)
    fix x y
    assume "x \<in> set ?gd" and "y \<in> set ?gd'" and "norm x = norm y"
    then show "build x = build y" using determined by blast
  qed
  then have "image_mset projr (mset (map build ?gd)) = image_mset projr (mset (map build ?gd'))"
    by simp
  then have txs: "mset (map (\<lambda>entry. projr (build entry)) ?gd)
      = mset (map (\<lambda>entry. projr (build entry)) ?gd')"
    by (simp add: image_mset.compositionality comp_def)
  have "buildTxs c args ?gd [] = Inr (map (\<lambda>entry. projr (build entry)) ?gd)"
    using ok by (simp add: buildTxs_collect collect_Inr_iff build_def)
  then have "inj_on (MarshalTx c) (set (map (\<lambda>entry. projr (build entry)) ?gd))"
    using assms(2) by (simp add: distinctEncodings_def distinct_remdups_inj_on)
  with txs have "sort_key (MarshalTx c) (map (\<lambda>entry. projr (build entry)) ?gd)
      = sort_key (MarshalTx c) (map (\<lambda>entry. projr (build entry)) ?gd')"
    by (rule sort_key_eq_sort_key)
  with g have g': "g = \<lparr>Txs = sort_key (MarshalTx c)
      (map (\<lambda>entry. projr (build' entry)) ?gd')\<rparr>"
    by (simp add: same_build)
  from ok' have "\<forall>entry \<in> set ?gd'. \<exists>asset. build' entry = Inr asset"
    by (simp add: same_build)
  with reg g' show ?thesis
    unfolding buildGenesis_Inr_iff build'_def by blast
qed

text \<open>
  Claim C1. The function is a function of its request: run twice on the same request
  it gives the same reply. And the reply depends on the content of the request only: a
  request built into a reply is built into the same reply when its map of definitions,
  the maps of initial states and the lists of states are visited in any other order,
  provided the codec tells apart the outputs of each asset and the assets.
\<close>

theorem BuildGenesis_order_independent:
  assumes "contentArgs args = contentArgs args'"
    and "distinctEncodings c args"
    and "BuildGenesis c args reply = (reply', None)"
  shows "BuildGenesis c args' reply = (reply', None)"
proof -
  from assms(1) have enc: "argEncoding args' = argEncoding args"
    by (simp add: contentArgs_def)
  from assms(3) obtain g where g: "buildGenesis c args = Inr g"
    by (cases "buildGenesis c args") (simp_all add: BuildGenesis_def)
  from buildGenesis_content [OF assms(1,2) g] have g': "buildGenesis c args' = Inr g" .
  have "BuildGenesis c args' reply = BuildGenesis c args reply"
    by (simp add: BuildGenesis_def g g' enc split: sum.splits prod.splits option.splits)
  then show ?thesis using assms(3) by simp
qed

theorem BuildGenesis_order_independent_witness:
  "contentArgs testOrderOne = contentArgs testOrderTwo \<and>
   distinctEncodings testCollaborators testOrderOne \<and>
   snd (BuildGenesis testCollaborators testOrderOne testReply) = None \<and>
   BuildGenesis testCollaborators testOrderTwo testReply
     = BuildGenesis testCollaborators testOrderOne testReply"
proof -
  have content: "contentArgs testOrderOne = contentArgs testOrderTwo"
    by (simp add: testOrderOne_def testOrderTwo_def testRequest_def testDefinition_def
        contentArgs_def contentDefinition_def contentStates_def)
  have distinct: "distinctEncodings testCollaborators testOrderOne"
    by code_simp
  have ok: "snd (BuildGenesis testCollaborators testOrderOne testReply) = None"
    by code_simp
  then have run: "BuildGenesis testCollaborators testOrderOne testReply
      = (fst (BuildGenesis testCollaborators testOrderOne testReply), None)"
    by (simp add: prod_eq_iff)
  from BuildGenesis_order_independent [OF content distinct run]
  have "BuildGenesis testCollaborators testOrderTwo testReply
      = BuildGenesis testCollaborators testOrderOne testReply"
    using run by simp
  then show ?thesis using content distinct ok by simp
qed

end
